theory Spec2Isabelle
  imports Main "HOL-Library.Word"
begin

section \<open>Values of the host language\<close>

text \<open>
  Task arguments and module responses are dynamically typed. \<open>pyval\<close> covers the
  values they carry here: \<open>None\<close>, booleans, integers, strings and dictionaries
  (a dictionary literal is an association list in the order it is written; \<open>.get\<close>
  reads the first binding of a key). Floats and lists are left out.
\<close>

datatype pyval = PNone | PBool bool | PInt int | PStr string | PDict "(string \<times> pyval) list"

type_synonym pydict = "(string \<times> pyval) list"

type_synonym bytes = "8 word list"

text \<open>\<open>d.get(k, default)\<close>.\<close>

definition dict_get :: "pydict \<Rightarrow> string \<Rightarrow> pyval \<Rightarrow> pyval" where
  "dict_get d k dflt = (case map_of d k of None \<Rightarrow> dflt | Some v \<Rightarrow> v)"

text \<open>Truth value of an object in a condition (\<open>if x:\<close>, \<open>x and y\<close>, \<open>not x\<close>).\<close>

fun truthy :: "pyval \<Rightarrow> bool" where
  "truthy PNone = False"
| "truthy (PBool b) = b"
| "truthy (PInt n) = (n \<noteq> 0)"
| "truthy (PStr s) = (s \<noteq> [])"
| "truthy (PDict d) = (d \<noteq> [])"

text \<open>\<open>x != 0\<close>: a boolean compares as the integer it is, any other non-number differs from 0.\<close>

fun ne_zero :: "pyval \<Rightarrow> bool" where
  "ne_zero (PInt n) = (n \<noteq> 0)"
| "ne_zero (PBool b) = b"
| "ne_zero PNone = True"
| "ne_zero (PStr s) = True"
| "ne_zero (PDict d) = True"

fun type_name :: "pyval \<Rightarrow> string" where
  "type_name PNone = ''NoneType''"
| "type_name (PBool b) = ''bool''"
| "type_name (PInt n) = ''int''"
| "type_name (PStr s) = ''str''"
| "type_name (PDict d) = ''dict''"

text \<open>A name between single quotes, as error messages show it.\<close>

definition quoted :: "string \<Rightarrow> string" where
  "quoted s = CHR 0x27 # s @ [CHR 0x27]"

text \<open>
  Exceptions, by what the handlers of \<open>run\<close> tell apart: \<open>AnsibleActionFail\<close> and
  every other \<open>Exception\<close>, each with its \<open>str(e)\<close>.
\<close>

datatype exn = AnsibleActionFail string | Exception string

text \<open>
  \<open>template.replace('%s', new)\<close> on strings: the occurrences of the two-character token
  are replaced from the left, without overlap.
\<close>

fun replace_percent_s :: "string \<Rightarrow> string \<Rightarrow> string" where
  "replace_percent_s new [] = []"
| "replace_percent_s new [c] = [c]"
| "replace_percent_s new (c1 # c2 # cs) =
     (if c1 = CHR ''%'' \<and> c2 = CHR ''s'' then new @ replace_percent_s new cs
      else c1 # replace_percent_s new (c2 # cs))"

text \<open>
  \<open>validate_cmd.replace('%s', dest)\<close> on arbitrary values: the attribute lookup fails on
  a receiver that is no string, the call fails on an argument that is no string.
\<close>

definition replace_method :: "pyval \<Rightarrow> pyval \<Rightarrow> exn + string" where
  "replace_method validate_cmd dest =
     (case validate_cmd of
        PStr t \<Rightarrow>
          (case dest of
             PStr d \<Rightarrow> Inr (replace_percent_s d t)
           | _ \<Rightarrow> Inl (Exception (''replace() argument 2 must be str, not '' @ type_name dest)))
      | _ \<Rightarrow> Inl (Exception (quoted (type_name validate_cmd) @
                 '' object has no attribute '' @ quoted ''replace'')))"

section \<open>The host runtime as seen from the action plugin\<close>

text \<open>
  A module invocation \<open>self._execute_module(module_name=..., module_args=...)\<close> and the
  log of one run: every invocation in the order it was issued, with what came back
  (a response dictionary, or an exception raised by the runtime).
\<close>

datatype call = Call (mod_name: string) (mod_args: pydict)

type_synonym trace = "(call \<times> (exn + pydict)) list"

text \<open>
  The runtime is a parameter. \<open>'w\<close> is the state of everything outside the plugin (the
  control node's files, the remote host); \<open>execute_module\<close> is a step of it.
  \<open>find_needle\<close> is \<open>self._find_needle('files', source)\<close>, \<open>read_file\<close> is
  \<open>open(path, 'rb').read()\<close>, \<open>md5_hexdigest\<close> is \<open>hashlib.md5(bytes).hexdigest()\<close>,
  \<open>str_of\<close> is \<open>str()\<close> on a value that is not already a string, and \<open>remote_bytes\<close>
  observes the content of a remote path (no code of the plugin calls it; it is what
  "reading back the destination" means).
\<close>

record 'w host =
  find_needle :: "'w \<Rightarrow> pyval \<Rightarrow> exn + string"
  read_file :: "'w \<Rightarrow> string \<Rightarrow> exn + bytes"
  md5_hexdigest :: "bytes \<Rightarrow> string"
  str_of :: "pyval \<Rightarrow> string"
  execute_module :: "'w \<Rightarrow> call \<Rightarrow> (exn + pydict) \<times> 'w"
  remote_bytes :: "'w \<Rightarrow> pyval \<Rightarrow> bytes option"

text \<open>\<open>f"{v}"\<close>.\<close>

definition py_str :: "'w host \<Rightarrow> pyval \<Rightarrow> string" where
  "py_str h v = (case v of PStr s \<Rightarrow> s | _ \<Rightarrow> str_of h v)"

section \<open>The deploy action: \<open>ActionModule.run\<close>\<close>

type_synonym result = "string \<rightharpoonup> pyval"

text \<open>
  Modelled from the spec: the dictionary \<open>super().run(tmp, task_vars)\<close> hands back is the
  host base class's, not this repository's; the spec's DeployResult is "built
  incrementally during the workflow", so it starts with no field set.
\<close>

definition base_result :: result where
  "base_result = Map.empty"

text \<open>
  The body of the \<open>try\<close> block either returns the result dictionary or raises with the
  dictionary as it stands at that point. Each stage below is the rest of the body from
  one module invocation on; it yields the outcome, the state of the world and the
  invocations issued from there on. The \<open>display.vvv\<close> and \<open>display.warning\<close> lines only
  log and are left out.
\<close>

datatype outcome = Returned result | Raised exn result

type_synonym 'w ret = "outcome \<times> 'w \<times> trace"

definition logged :: "call \<times> (exn + pydict) \<Rightarrow> 'w ret \<Rightarrow> 'w ret" where
  "logged e x = (case x of (out, w, tr) \<Rightarrow> (out, w, e # tr))"

text \<open>Step 7 (lines 181-190): remove the backup if it is not wanted, then report success.\<close>

definition cleanup ::
  "'w host \<Rightarrow> string \<Rightarrow> pyval \<Rightarrow> pyval \<Rightarrow> pyval \<Rightarrow> result \<Rightarrow> 'w \<Rightarrow> 'w ret" where
  "cleanup h source dest backup backup_file result w =
     (let success = result(''msg'' \<mapsto>
            PStr (''Successfully deployed '' @ source @ '' to '' @ py_str h dest))
      in if truthy backup_file \<and> \<not> truthy backup
         then (let c = Call ''file'' [(''path'', backup_file), (''state'', PStr ''absent'')]
               in case execute_module h w c of
                    (r, w1) \<Rightarrow> logged (c, r)
                      (case r of
                         Inl e \<Rightarrow> (Raised e result, w1, [])
                       | Inr _ \<Rightarrow> (Returned success, w1, [])))
         else (Returned success, w, []))"

text \<open>The result of a failed validation (lines 173-176).\<close>

definition validation_failed :: "'w host \<Rightarrow> pydict \<Rightarrow> result \<Rightarrow> result" where
  "validation_failed h validate_result result =
     result(''failed'' \<mapsto> PBool True,
            ''msg'' \<mapsto> PStr (''Validation failed: '' @
               py_str h (dict_get validate_result ''stderr'' (PStr ''Unknown error''))),
            ''validation_output'' \<mapsto> dict_get validate_result ''stdout'' (PStr ''''))"

text \<open>Step 6 (lines 145-179): validate the deployed file, roll back on a non-zero exit code.\<close>

definition validate_stage ::
  "'w host \<Rightarrow> string \<Rightarrow> pyval \<Rightarrow> pyval \<Rightarrow> pyval \<Rightarrow> pyval \<Rightarrow> result \<Rightarrow> 'w \<Rightarrow> 'w ret" where
  "validate_stage h source dest validate_cmd backup backup_file result w =
     (if truthy validate_cmd
      then (case replace_method validate_cmd dest of
              Inl e \<Rightarrow> (Raised e result, w, [])
            | Inr cmd \<Rightarrow>
                (let c = Call ''command'' [(''_raw_params'', PStr cmd)]
                 in case execute_module h w c of
                      (r, w1) \<Rightarrow> logged (c, r)
                        (case r of
                           Inl e \<Rightarrow> (Raised e result, w1, [])
                         | Inr validate_result \<Rightarrow>
                             if ne_zero (dict_get validate_result ''rc'' (PInt 0))
                             then (if truthy backup_file
                                   then (let c2 = Call ''copy'' [(''src'', backup_file),
                                                   (''dest'', dest), (''remote_src'', PBool True)]
                                         in case execute_module h w1 c2 of
                                              (r2, w2) \<Rightarrow> logged (c2, r2)
                                                (case r2 of
                                                   Inl e \<Rightarrow> (Raised e result, w2, [])
                                                 | Inr _ \<Rightarrow>
                                                     (Returned (validation_failed h validate_result result),
                                                      w2, [])))
                                   else (Returned (validation_failed h validate_result result), w1, []))
                             else cleanup h source dest backup backup_file
                                    (result(''validation'' \<mapsto> PStr ''passed'',
                                            ''validation_output'' \<mapsto>
                                               dict_get validate_result ''stdout'' (PStr '''')))
                                    w1)))
      else cleanup h source dest backup backup_file result w)"

text \<open>The arguments of the copy to the destination (lines 118-128).\<close>

definition copy_args :: "string \<Rightarrow> pyval \<Rightarrow> pyval \<Rightarrow> pyval \<Rightarrow> pyval \<Rightarrow> pydict" where
  "copy_args source dest owner grp mode =
     [(''src'', PStr source), (''dest'', dest)]
     @ (if truthy owner then [(''owner'', owner)] else [])
     @ (if truthy grp then [(''group'', grp)] else [])
     @ (if truthy mode then [(''mode'', mode)] else [])"

text \<open>Step 5 (lines 115-143): copy the source to the destination.\<close>

definition copy_stage ::
  "'w host \<Rightarrow> string \<Rightarrow> string \<Rightarrow> pyval \<Rightarrow> pyval \<Rightarrow> pyval \<Rightarrow> pyval \<Rightarrow> pyval \<Rightarrow> pyval \<Rightarrow> pyval
     \<Rightarrow> result \<Rightarrow> 'w \<Rightarrow> 'w ret" where
  "copy_stage h source source_checksum dest validate_cmd backup owner grp mode backup_file
       result w =
     (let c = Call ''copy'' (copy_args source dest owner grp mode)
      in case execute_module h w c of
           (r, w1) \<Rightarrow> logged (c, r)
             (case r of
                Inl e \<Rightarrow> (Raised e result, w1, [])
              | Inr copy_result \<Rightarrow>
                  if truthy (dict_get copy_result ''failed'' PNone)
                  then (Returned (result(''failed'' \<mapsto> PBool True,
                           ''msg'' \<mapsto> PStr (''Copy failed: '' @
                              py_str h (dict_get copy_result ''msg'' PNone)))), w1, [])
                  else validate_stage h source dest validate_cmd backup backup_file
                         (result(''changed'' \<mapsto> dict_get copy_result ''changed'' (PBool False),
                                 ''dest'' \<mapsto> dest,
                                 ''checksum'' \<mapsto> PStr source_checksum))
                         w1))"

text \<open>Step 4 (lines 92-113): back the existing destination up if requested.\<close>

definition backup_stage ::
  "'w host \<Rightarrow> string \<Rightarrow> string \<Rightarrow> pyval \<Rightarrow> pyval \<Rightarrow> pyval \<Rightarrow> pyval \<Rightarrow> pyval \<Rightarrow> pyval \<Rightarrow> pyval
     \<Rightarrow> result \<Rightarrow> 'w \<Rightarrow> 'w ret" where
  "backup_stage h source source_checksum dest validate_cmd backup owner grp mode dest_exists
       result w =
     (if truthy backup \<and> truthy dest_exists
      then (let backup_file = PStr (py_str h dest @ ''.backup'');
                c = Call ''copy'' [(''src'', dest), (''dest'', backup_file),
                                   (''remote_src'', PBool True)]
            in case execute_module h w c of
                 (r, w1) \<Rightarrow> logged (c, r)
                   (case r of
                      Inl e \<Rightarrow> (Raised e result, w1, [])
                    | Inr backup_result \<Rightarrow>
                        if truthy (dict_get backup_result ''failed'' PNone)
                        then (Returned (result(''failed'' \<mapsto> PBool True,
                                 ''msg'' \<mapsto> PStr (''Backup failed: '' @
                                    py_str h (dict_get backup_result ''msg'' PNone)))), w1, [])
                        else copy_stage h source source_checksum dest validate_cmd backup
                               owner grp mode backup_file
                               (result(''backup_file'' \<mapsto> backup_file)) w1))
      else copy_stage h source source_checksum dest validate_cmd backup owner grp mode
             PNone result w)"

text \<open>
  \<open>stat_result.get('stat', {}).get('exists', False)\<close> (line 89): the inner \<open>.get\<close> fails on
  a value that is not a dictionary. Line 90 reads \<open>checksum\<close> the same way, into a variable
  that is not used again; it cannot fail where line 89 did not.
\<close>

definition stat_exists :: "pydict \<Rightarrow> exn + pyval" where
  "stat_exists stat_result =
     (case dict_get stat_result ''stat'' (PDict []) of
        PDict st \<Rightarrow> Inr (dict_get st ''exists'' (PBool False))
      | v \<Rightarrow> Inl (Exception (quoted (type_name v) @
                 '' object has no attribute '' @ quoted ''get'')))"

text \<open>Step 3 (lines 82-90): ask for the state of the destination.\<close>

definition stat_stage ::
  "'w host \<Rightarrow> string \<Rightarrow> string \<Rightarrow> pyval \<Rightarrow> pyval \<Rightarrow> pyval \<Rightarrow> pyval \<Rightarrow> pyval \<Rightarrow> pyval
     \<Rightarrow> result \<Rightarrow> 'w \<Rightarrow> 'w ret" where
  "stat_stage h source source_checksum dest validate_cmd backup owner grp mode result w =
     (let c = Call ''stat'' [(''path'', dest)]
      in case execute_module h w c of
           (r, w1) \<Rightarrow> logged (c, r)
             (case r of
                Inl e \<Rightarrow> (Raised e result, w1, [])
              | Inr stat_result \<Rightarrow>
                  (case stat_exists stat_result of
                     Inl e \<Rightarrow> (Raised e result, w1, [])
                   | Inr dest_exists \<Rightarrow>
                       backup_stage h source source_checksum dest validate_cmd backup
                         owner grp mode dest_exists result w1)))"

text \<open>Steps 1 and 2 (lines 72-80): find the source on the control node and hash it.\<close>

definition try_body ::
  "'w host \<Rightarrow> pyval \<Rightarrow> pyval \<Rightarrow> pyval \<Rightarrow> pyval \<Rightarrow> pyval \<Rightarrow> pyval \<Rightarrow> pyval \<Rightarrow> result \<Rightarrow> 'w
     \<Rightarrow> 'w ret" where
  "try_body h source0 dest validate_cmd backup owner grp mode result w =
     (case find_needle h w source0 of
        Inl e \<Rightarrow> (Raised e result, w, [])
      | Inr source \<Rightarrow>
          (case read_file h w source of
             Inl e \<Rightarrow> (Raised e result, w, [])
           | Inr content \<Rightarrow>
               stat_stage h source (md5_hexdigest h content) dest validate_cmd backup
                 owner grp mode result w))"

text \<open>The two handlers (lines 192-197).\<close>

fun handle :: "outcome \<Rightarrow> result" where
  "handle (Returned result) = result"
| "handle (Raised (AnsibleActionFail m) result) =
     result(''failed'' \<mapsto> PBool True, ''msg'' \<mapsto> PStr m)"
| "handle (Raised (Exception m) result) =
     result(''failed'' \<mapsto> PBool True, ''msg'' \<mapsto> PStr (''Unexpected error: '' @ m))"

text \<open>The \<open>try\<close> statement as a whole (lines 71-197): the body, then the handler if it raised.\<close>

definition attempt ::
  "'w host \<Rightarrow> pyval \<Rightarrow> pyval \<Rightarrow> pyval \<Rightarrow> pyval \<Rightarrow> pyval \<Rightarrow> pyval \<Rightarrow> pyval \<Rightarrow> result \<Rightarrow> 'w
     \<Rightarrow> result \<times> 'w \<times> trace" where
  "attempt h source0 dest validate_cmd backup owner grp mode result w =
     (case try_body h source0 dest validate_cmd backup owner grp mode result w of
        (out, w1, tr) \<Rightarrow> (handle out, w1, tr))"

text \<open>
  \<open>run\<close> (lines 32-199): \<open>args\<close> is \<open>self._task.args\<close>, \<open>w\<close> the world the run starts in. It
  yields the result dictionary, the world it leaves and the module invocations it issued.
\<close>

definition run :: "'w host \<Rightarrow> pydict \<Rightarrow> 'w \<Rightarrow> result \<times> 'w \<times> trace" where
  "run h args w =
     (let result = base_result;
          source = dict_get args ''src'' PNone;
          dest = dict_get args ''dest'' PNone;
          validate_cmd = dict_get args ''validate'' PNone;
          backup = dict_get args ''backup'' (PBool True);
          owner = dict_get args ''owner'' PNone;
          grp = dict_get args ''group'' PNone;
          mode = dict_get args ''mode'' PNone
      in if source = PNone
         then (result(''failed'' \<mapsto> PBool True, ''msg'' \<mapsto> PStr ''src is required''), w, [])
         else if dest = PNone
         then (result(''failed'' \<mapsto> PBool True, ''msg'' \<mapsto> PStr ''dest is required''), w, [])
         else attempt h source dest validate_cmd backup owner grp mode result w)"

text \<open>The parts of what \<open>run\<close> yields.\<close>

definition run_result :: "'w host \<Rightarrow> pydict \<Rightarrow> 'w \<Rightarrow> result" where
  "run_result h args w = fst (run h args w)"

definition run_world :: "'w host \<Rightarrow> pydict \<Rightarrow> 'w \<Rightarrow> 'w" where
  "run_world h args w = fst (snd (run h args w))"

definition run_trace :: "'w host \<Rightarrow> pydict \<Rightarrow> 'w \<Rightarrow> trace" where
  "run_trace h args w = snd (snd (run h args w))"

section \<open>The invocations and results the theorems speak of\<close>

text \<open>
  Names for the module invocations \<open>run\<close> builds, as functions of the task arguments, and
  for the result dictionaries of its exits.
\<close>

definition stat_call :: "pyval \<Rightarrow> call" where
  "stat_call dest = Call ''stat'' [(''path'', dest)]"

definition backup_path :: "'w host \<Rightarrow> pyval \<Rightarrow> pyval" where
  "backup_path h dest = PStr (py_str h dest @ ''.backup'')"

definition backup_call :: "'w host \<Rightarrow> pyval \<Rightarrow> call" where
  "backup_call h dest =
     Call ''copy'' [(''src'', dest), (''dest'', backup_path h dest), (''remote_src'', PBool True)]"

definition deploy_call :: "string \<Rightarrow> pyval \<Rightarrow> pyval \<Rightarrow> pyval \<Rightarrow> pyval \<Rightarrow> call" where
  "deploy_call source dest owner grp mode = Call ''copy'' (copy_args source dest owner grp mode)"

definition validate_call :: "string \<Rightarrow> call" where
  "validate_call cmd = Call ''command'' [(''_raw_params'', PStr cmd)]"

definition restore_call :: "'w host \<Rightarrow> pyval \<Rightarrow> call" where
  "restore_call h dest =
     Call ''copy'' [(''src'', backup_path h dest), (''dest'', dest), (''remote_src'', PBool True)]"

definition delete_call :: "'w host \<Rightarrow> pyval \<Rightarrow> call" where
  "delete_call h dest =
     Call ''file'' [(''path'', backup_path h dest), (''state'', PStr ''absent'')]"

definition success_msg :: "'w host \<Rightarrow> string \<Rightarrow> pyval \<Rightarrow> pyval" where
  "success_msg h source dest =
     PStr (''Successfully deployed '' @ source @ '' to '' @ py_str h dest)"

definition copied_result :: "'w host \<Rightarrow> result \<Rightarrow> pydict \<Rightarrow> pyval \<Rightarrow> bytes \<Rightarrow> result" where
  "copied_result h res cr d bs =
     res(''changed'' \<mapsto> dict_get cr ''changed'' (PBool False), ''dest'' \<mapsto> d,
         ''checksum'' \<mapsto> PStr (md5_hexdigest h bs))"

definition copy_failed_result :: "'w host \<Rightarrow> result \<Rightarrow> pydict \<Rightarrow> result" where
  "copy_failed_result h res cr =
     res(''failed'' \<mapsto> PBool True,
         ''msg'' \<mapsto> PStr (''Copy failed: '' @ py_str h (dict_get cr ''msg'' PNone)))"

definition backup_failed_result :: "'w host \<Rightarrow> result \<Rightarrow> pydict \<Rightarrow> result" where
  "backup_failed_result h res br =
     res(''failed'' \<mapsto> PBool True,
         ''msg'' \<mapsto> PStr (''Backup failed: '' @ py_str h (dict_get br ''msg'' PNone)))"


text \<open>
  What step 4 leaves behind when the run goes on to the copy: either no backup was
  attempted, or the backup copy was issued once and did not report failure.
  \<open>bseg\<close> is what step 4 logged, \<open>bf\<close> the value of \<open>backup_file\<close>, \<open>res0\<close> the result
  dictionary and \<open>w2\<close> the world after the step.
\<close>

definition backup_step ::
  "'w host \<Rightarrow> pyval \<Rightarrow> pyval \<Rightarrow> pyval \<Rightarrow> result \<Rightarrow> 'w \<Rightarrow> trace \<Rightarrow> pyval \<Rightarrow> result \<Rightarrow> 'w \<Rightarrow> bool" where
  "backup_step h d backup ex res w1 bseg bf res0 w2 \<longleftrightarrow>
     (\<not> (truthy backup \<and> truthy ex) \<and> bseg = [] \<and> bf = PNone \<and> res0 = res \<and> w2 = w1)
   \<or> (truthy backup \<and> truthy ex \<and> bf = backup_path h d
       \<and> res0 = res(''backup_file'' \<mapsto> backup_path h d)
       \<and> (\<exists>br. execute_module h w1 (backup_call h d) = (Inr br, w2)
               \<and> \<not> truthy (dict_get br ''failed'' PNone)
               \<and> bseg = [(backup_call h d, Inr br)]))"



text \<open>\<open>b\<close> is logged directly after \<open>a\<close>.\<close>

fun follows_directly :: "'a \<Rightarrow> 'a \<Rightarrow> 'a list \<Rightarrow> bool" where
  "follows_directly a b (x # y # ys) = ((x = a \<and> y = b) \<or> follows_directly a b (y # ys))"
| "follows_directly a b [x] = False"
| "follows_directly a b [] = False"

text \<open>\<open>sep.join(xs)\<close>.\<close>

fun join :: "string \<Rightarrow> string list \<Rightarrow> string" where
  "join sep [] = []"
| "join sep [x] = x"
| "join sep (x # y # ys) = x @ sep @ join sep (y # ys)"

text \<open>
  A monitor for the order of deletions in a log. An invocation deletes when it is the
  \<open>file\<close> module with \<open>state: absent\<close>; the copy to the destination is the \<open>copy\<close> module
  with that \<open>dest\<close> and no \<open>remote_src\<close>. \<open>deletions_guarded dest validating clear tr\<close> walks
  the log: \<open>clear\<close> turns true at a validation command that came back with exit code zero
  (when the request has a validation command) or at a copy to the destination that came
  back without reporting failure (when it has none), and every deletion must find it true.
\<close>

definition is_delete :: "call \<Rightarrow> bool" where
  "is_delete c \<longleftrightarrow> mod_name c = ''file'' \<and> map_of (mod_args c) ''state'' = Some (PStr ''absent'')"

definition is_deploy_copy :: "pyval \<Rightarrow> call \<Rightarrow> bool" where
  "is_deploy_copy dest c \<longleftrightarrow>
     mod_name c = ''copy'' \<and> map_of (mod_args c) ''dest'' = Some dest
     \<and> map_of (mod_args c) ''remote_src'' = None"

definition validation_passed :: "call \<times> (exn + pydict) \<Rightarrow> bool" where
  "validation_passed e =
     (case snd e of
        Inl x \<Rightarrow> False
      | Inr vr \<Rightarrow> mod_name (fst e) = ''command'' \<and> \<not> ne_zero (dict_get vr ''rc'' (PInt 0)))"

definition copy_succeeded :: "pyval \<Rightarrow> call \<times> (exn + pydict) \<Rightarrow> bool" where
  "copy_succeeded dest e =
     (case snd e of
        Inl x \<Rightarrow> False
      | Inr cr \<Rightarrow> is_deploy_copy dest (fst e) \<and> \<not> truthy (dict_get cr ''failed'' PNone))"

fun deletions_guarded :: "pyval \<Rightarrow> bool \<Rightarrow> bool \<Rightarrow> trace \<Rightarrow> bool" where
  "deletions_guarded dest validating clear [] = True"
| "deletions_guarded dest validating clear (e # tr) =
     (if is_delete (fst e) then clear \<and> deletions_guarded dest validating clear tr
      else deletions_guarded dest validating
             (clear \<or> (if validating then validation_passed e else copy_succeeded dest e)) tr)"




section \<open>The permission filters of \<open>linux_utils\<close>\<close>

text \<open>
  The filters are modelled on strings of one-byte characters (the argument after
  \<open>str()\<close>). \<open>int(s, 8)\<close> is the interpreter's; its grammar on such strings is: optional
  white space around, an optional sign, an optional \<open>0o\<close> or \<open>0O\<close> prefix (which one
  underscore may follow), then octal digits, single underscores allowed between two
  digits. \<open>None\<close> stands for the \<open>ValueError\<close> it raises on anything else.
\<close>

definition is_space :: "char \<Rightarrow> bool" where
  "is_space c \<longleftrightarrow> (of_char c :: nat) \<in> set [9, 10, 11, 12, 13, 28, 29, 30, 31, 32]"

definition strip_spaces :: "string \<Rightarrow> string" where
  "strip_spaces s = rev (dropWhile is_space (rev (dropWhile is_space s)))"

definition octal_digit :: "char \<Rightarrow> nat option" where
  "octal_digit c = (let n = of_char c in if 48 \<le> n \<and> n \<le> 55 then Some (n - 48) else None)"

text \<open>
  The digits, most significant first: \<open>acc\<close> is the value so far, \<open>after_digit\<close> says that
  the character before was a digit (an underscore needs one, and so does the end).
\<close>

fun scan_octal :: "int \<Rightarrow> bool \<Rightarrow> string \<Rightarrow> int option" where
  "scan_octal acc after_digit [] = (if after_digit then Some acc else None)"
| "scan_octal acc after_digit (c # cs) =
     (if c = CHR ''_'' then (if after_digit then scan_octal acc False cs else None)
      else (case octal_digit c of
              None \<Rightarrow> None
            | Some v \<Rightarrow> scan_octal (8 * acc + int v) True cs))"

definition skip_octal_prefix :: "string \<Rightarrow> string" where
  "skip_octal_prefix s =
     (case s of
        c0 # c1 # rest \<Rightarrow>
          if c0 = CHR ''0'' \<and> (c1 = CHR ''o'' \<or> c1 = CHR ''O'')
          then (case rest of
                  [] \<Rightarrow> rest
                | u # rest' \<Rightarrow> if u = CHR ''_'' then rest' else rest)
          else s
      | _ \<Rightarrow> s)"

definition int_base8 :: "string \<Rightarrow> int option" where
  "int_base8 s =
     (let t = strip_spaces s
      in case t of
           [] \<Rightarrow> None
         | c # rest \<Rightarrow>
             if c = CHR ''-'' then map_option uminus (scan_octal 0 False (skip_octal_prefix rest))
             else if c = CHR ''+'' then scan_octal 0 False (skip_octal_prefix rest)
             else scan_octal 0 False (skip_octal_prefix t))"

text \<open>The digits of a natural number in a base up to ten, as \<open>oct()\<close> and \<open>str()\<close> print them.\<close>

fun digits_of :: "nat \<Rightarrow> nat \<Rightarrow> string" where
  "digits_of b n =
     (if b < 2 \<or> n < b then [char_of (48 + n)]
      else digits_of b (n div b) @ [char_of (48 + n mod b)])"

text \<open>\<open>oct(n)\<close>.\<close>

definition py_oct :: "int \<Rightarrow> string" where
  "py_oct n = (if n < 0 then ''-0o'' @ digits_of 8 (nat (- n)) else ''0o'' @ digits_of 8 (nat n))"

datatype filter_error = AnsibleFilterError string

text \<open>
  The three characters of one permission group (lines 95-99): \<open>bits\<close> is
  \<open>(perm_int >> shift) & 0o7\<close>.
\<close>

definition perm_str :: "int \<Rightarrow> nat \<Rightarrow> string" where
  "perm_str perm_int shift =
     (let bits = and (drop_bit shift perm_int) 7
      in [if and bits 4 \<noteq> 0 then CHR ''r'' else CHR ''-'',
          if and bits 2 \<noteq> 0 then CHR ''w'' else CHR ''-'',
          if and bits 1 \<noteq> 0 then CHR ''x'' else CHR ''-''])"

text \<open>
  \<open>octal_to_symbolic\<close> (lines 70-105). The message of the error shows \<open>octal_perm\<close> as
  reassigned on lines 85-87.
\<close>

definition octal_to_symbolic :: "string \<Rightarrow> filter_error + string" where
  "octal_to_symbolic s =
     (let stripped = dropWhile (\<lambda>c. c = CHR ''0'') s;
          octal_perm = (if stripped = [] then ''0'' else stripped)
      in case int_base8 octal_perm of
           None \<Rightarrow> Inl (AnsibleFilterError
                     (''octal_to_symbolic: Invalid octal '' @ quoted octal_perm))
         | Some perm_int \<Rightarrow> Inr (concat (map (perm_str perm_int) [6, 3, 0])))"

text \<open>\<open>symbolic_to_octal\<close> (lines 107-142).\<close>

definition symbolic_to_octal :: "string \<Rightarrow> filter_error + string" where
  "symbolic_to_octal symbolic_perm =
     (if length symbolic_perm \<noteq> 9
      then Inl (AnsibleFilterError (''symbolic_to_octal: Expected 9 characters, got ''
                  @ digits_of 10 (length symbolic_perm)))
      else (let octal_value =
                  (if symbolic_perm ! 0 = CHR ''r'' then 256 else 0)
                + (if symbolic_perm ! 1 = CHR ''w'' then 128 else 0)
                + (if symbolic_perm ! 2 = CHR ''x'' then 64 else 0)
                + (if symbolic_perm ! 3 = CHR ''r'' then 32 else 0)
                + (if symbolic_perm ! 4 = CHR ''w'' then 16 else 0)
                + (if symbolic_perm ! 5 = CHR ''x'' then 8 else 0)
                + (if symbolic_perm ! 6 = CHR ''r'' then 4 else 0)
                + (if symbolic_perm ! 7 = CHR ''w'' then 2 else 0)
                + (if symbolic_perm ! 8 = CHR ''x'' then (1::int) else 0)
            in Inr (drop 2 (py_oct octal_value))))"

text \<open>A string of octal digits.\<close>

definition octal_string :: "string \<Rightarrow> bool" where
  "octal_string s \<longleftrightarrow> list_all (\<lambda>c. octal_digit c \<noteq> None) s"

text \<open>
  The number a string of octal digits denotes, continuing from \<open>acc\<close>, and the number the
  three characters of one permission group denote.
\<close>

definition octal_value :: "nat \<Rightarrow> string \<Rightarrow> nat" where
  "octal_value acc s = foldl (\<lambda>a c. 8 * a + the (octal_digit c)) acc s"

definition group_value :: "string \<Rightarrow> int" where
  "group_value g = (if g ! 0 = CHR ''r'' then 4 else 0) + (if g ! 1 = CHR ''w'' then 2 else 0)
                   + (if g ! 2 = CHR ''x'' then 1 else 0)"

section \<open>Two concrete runtimes\<close>

text \<open>
  A runtime that answers from a script: the world is the list of answers still to give,
  one per module invocation, whatever the invocation. A file \<open>name\<close> is found as
  \<open>/files/name\<close> and holds three bytes.
\<close>

definition scripted :: "(exn + pydict) list host" where
  "scripted =
     \<lparr> find_needle = (\<lambda>w s. case s of PStr n \<Rightarrow> Inr (''/files/'' @ n)
                                | _ \<Rightarrow> Inl (Exception ''not a file name'')),
       read_file = (\<lambda>w p. Inr [1, 2, 3]),
       md5_hexdigest = (\<lambda>bs. ''5289df737df57326fcdd22597afb1fac''),
       str_of = (\<lambda>v. ''?''),
       execute_module = (\<lambda>w c. case w of [] \<Rightarrow> (Inl (Exception ''no answer''), [])
                                | r # rs \<Rightarrow> (r, rs)),
       remote_bytes = (\<lambda>w p. None) \<rparr>"

text \<open>The request of the spec's scenario, and what \<open>stat\<close> says of an existing file.\<close>

definition nginx_args :: pydict where
  "nginx_args = [(''src'', PStr ''nginx.conf''), (''dest'', PStr ''/etc/nginx/nginx.conf''),
                 (''validate'', PStr ''nginx -t -c %s''), (''backup'', PBool True)]"

definition stat_present :: "exn + pydict" where
  "stat_present = Inr [(''stat'', PDict [(''exists'', PBool True), (''checksum'', PStr ''0f'')])]"

definition stat_absent :: "exn + pydict" where
  "stat_absent = Inr [(''stat'', PDict [(''exists'', PBool False)])]"

definition changed_ok :: "exn + pydict" where
  "changed_ok = Inr [(''changed'', PBool True)]"


definition validation_rc0 :: pydict where
  "validation_rc0 = [(''rc'', PInt 0), (''stdout'', PStr ''syntax is ok''), (''stderr'', PStr '''')]"

text \<open>The same request with \<open>backup: false\<close>.\<close>

definition no_backup_args :: pydict where
  "no_backup_args = [(''src'', PStr ''nginx.conf''), (''dest'', PStr ''/etc/nginx/nginx.conf''),
                     (''validate'', PStr ''nginx -t -c %s''), (''backup'', PBool False)]"





section \<open>The execution paths of the deploy action\<close>


lemma cleanup_skip:
  "truthy bf \<longrightarrow> truthy backup \<Longrightarrow>
   cleanup h p d backup bf res w = (Returned (res(''msg'' \<mapsto> success_msg h p d)), w, [])"
  by (auto simp: cleanup_def Let_def success_msg_def)

lemma backup_step_guard:
  "backup_step h d backup ex res w1 bseg bf res0 w2 \<Longrightarrow> truthy bf \<longrightarrow> truthy backup"
  by (auto simp: backup_step_def)

text \<open>
  The paths through step 6, when \<open>backup_file\<close> is set only under a truthy \<open>backup\<close> (as it
  is whenever step 4 set it).
\<close>

lemma validate_stage_paths:
  fixes h :: "'w host" and p d v backup bf res w
  defines "rc \<equiv> Call ''copy'' [(''src'', bf), (''dest'', d), (''remote_src'', PBool True)]"
      and "go \<equiv> validate_stage h p d v backup bf res w"
  assumes bk: "truthy bf \<longrightarrow> truthy backup"
  obtains
    (no_validation) "\<not> truthy v"
      "go = (Returned (res(''msg'' \<mapsto> success_msg h p d)), w, [])"
  | (replace_raised) e where "truthy v" "replace_method v d = Inl e"
      "go = (Raised e res, w, [])"
  | (command_raised) cmd e w1 where "truthy v" "replace_method v d = Inr cmd"
      "execute_module h w (validate_call cmd) = (Inl e, w1)"
      "go = (Raised e res, w1, [(validate_call cmd, Inl e)])"
  | (passed) cmd vr w1 where "truthy v" "replace_method v d = Inr cmd"
      "execute_module h w (validate_call cmd) = (Inr vr, w1)"
      "\<not> ne_zero (dict_get vr ''rc'' (PInt 0))"
      "go = (Returned (res(''validation'' \<mapsto> PStr ''passed'',
                ''validation_output'' \<mapsto> dict_get vr ''stdout'' (PStr ''''),
                ''msg'' \<mapsto> success_msg h p d)), w1, [(validate_call cmd, Inr vr)])"
  | (failed_no_backup) cmd vr w1 where "truthy v" "replace_method v d = Inr cmd"
      "execute_module h w (validate_call cmd) = (Inr vr, w1)"
      "ne_zero (dict_get vr ''rc'' (PInt 0))" "\<not> truthy bf"
      "go = (Returned (validation_failed h vr res), w1, [(validate_call cmd, Inr vr)])"
  | (restore_raised) cmd vr w1 e w2 where "truthy v" "replace_method v d = Inr cmd"
      "execute_module h w (validate_call cmd) = (Inr vr, w1)"
      "ne_zero (dict_get vr ''rc'' (PInt 0))" "truthy bf"
      "execute_module h w1 rc = (Inl e, w2)"
      "go = (Raised e res, w2, [(validate_call cmd, Inr vr), (rc, Inl e)])"
  | (restored) cmd vr w1 rr w2 where "truthy v" "replace_method v d = Inr cmd"
      "execute_module h w (validate_call cmd) = (Inr vr, w1)"
      "ne_zero (dict_get vr ''rc'' (PInt 0))" "truthy bf"
      "execute_module h w1 rc = (Inr rr, w2)"
      "go = (Returned (validation_failed h vr res), w2,
             [(validate_call cmd, Inr vr), (rc, Inr rr)])"
proof (cases "truthy v")
  case False
  show ?thesis
    by (rule no_validation)
       (use False in \<open>simp_all add: go_def validate_stage_def cleanup_skip [OF bk]\<close>)
next
  case tv: True
  show ?thesis
  proof (cases "replace_method v d")
    case (Inl e)
    show ?thesis
      by (rule replace_raised [of e]) (use tv Inl in \<open>simp_all add: go_def validate_stage_def\<close>)
  next
    case rp: (Inr cmd)
    obtain r w1 where ex: "execute_module h w (validate_call cmd) = (r, w1)"
      by (cases "execute_module h w (validate_call cmd)")
    note defs = go_def rc_def validate_stage_def validate_call_def logged_def
    show ?thesis
    proof (cases r)
      case (Inl e)
      show ?thesis
        by (rule command_raised [of cmd e w1]) (use tv rp ex Inl in \<open>simp_all add: defs\<close>)
    next
      case vr: (Inr vr)
      show ?thesis
      proof (cases "ne_zero (dict_get vr ''rc'' (PInt 0))")
        case False
        show ?thesis
          by (rule passed [of cmd vr w1])
             (use tv rp ex vr False in \<open>simp_all add: defs cleanup_skip [OF bk]\<close>)
      next
        case nz: True
        show ?thesis
        proof (cases "truthy bf")
          case False
          show ?thesis
            by (rule failed_no_backup [of cmd vr w1])
               (use tv rp ex vr nz False in \<open>simp_all add: defs\<close>)
        next
          case tb: True
          obtain r2 w2 where ex2: "execute_module h w1 rc = (r2, w2)"
            by (cases "execute_module h w1 rc")
          show ?thesis
          proof (cases r2)
            case (Inl e)
            show ?thesis
              by (rule restore_raised [of cmd vr w1 e w2])
                 (use tv rp ex vr nz tb ex2 Inl in \<open>simp_all add: defs\<close>)
          next
            case (Inr rr)
            show ?thesis
              by (rule restored [of cmd vr w1 rr w2])
                 (use tv rp ex vr nz tb ex2 Inr in \<open>simp_all add: defs\<close>)
          qed
        qed
      qed
    qed
  qed
qed

text \<open>The paths from step 5 on, under the same condition.\<close>

lemma copy_stage_paths:
  fixes h :: "'w host" and p bs d v backup ow gr mo bf res w
  defines "dc \<equiv> deploy_call p d ow gr mo"
      and "rc \<equiv> Call ''copy'' [(''src'', bf), (''dest'', d), (''remote_src'', PBool True)]"
      and "go \<equiv> copy_stage h p (md5_hexdigest h bs) d v backup ow gr mo bf res w"
  assumes bk: "truthy bf \<longrightarrow> truthy backup"
  obtains
    (copy_raised) e w1 where "execute_module h w dc = (Inl e, w1)"
      "go = (Raised e res, w1, [(dc, Inl e)])"
  | (copy_failed) cr w1 where "execute_module h w dc = (Inr cr, w1)"
      "truthy (dict_get cr ''failed'' PNone)"
      "go = (Returned (copy_failed_result h res cr), w1, [(dc, Inr cr)])"
  | (no_validation) cr w1 where "execute_module h w dc = (Inr cr, w1)"
      "\<not> truthy (dict_get cr ''failed'' PNone)" "\<not> truthy v"
      "go = (Returned ((copied_result h res cr d bs)(''msg'' \<mapsto> success_msg h p d)), w1,
             [(dc, Inr cr)])"
  | (replace_raised) cr w1 e where "execute_module h w dc = (Inr cr, w1)"
      "\<not> truthy (dict_get cr ''failed'' PNone)" "truthy v" "replace_method v d = Inl e"
      "go = (Raised e (copied_result h res cr d bs), w1, [(dc, Inr cr)])"
  | (command_raised) cr w1 cmd e w2 where "execute_module h w dc = (Inr cr, w1)"
      "\<not> truthy (dict_get cr ''failed'' PNone)" "truthy v" "replace_method v d = Inr cmd"
      "execute_module h w1 (validate_call cmd) = (Inl e, w2)"
      "go = (Raised e (copied_result h res cr d bs), w2,
             [(dc, Inr cr), (validate_call cmd, Inl e)])"
  | (passed) cr w1 cmd vr w2 where "execute_module h w dc = (Inr cr, w1)"
      "\<not> truthy (dict_get cr ''failed'' PNone)" "truthy v" "replace_method v d = Inr cmd"
      "execute_module h w1 (validate_call cmd) = (Inr vr, w2)"
      "\<not> ne_zero (dict_get vr ''rc'' (PInt 0))"
      "go = (Returned ((copied_result h res cr d bs)(''validation'' \<mapsto> PStr ''passed'',
                ''validation_output'' \<mapsto> dict_get vr ''stdout'' (PStr ''''),
                ''msg'' \<mapsto> success_msg h p d)), w2,
             [(dc, Inr cr), (validate_call cmd, Inr vr)])"
  | (failed_no_backup) cr w1 cmd vr w2 where "execute_module h w dc = (Inr cr, w1)"
      "\<not> truthy (dict_get cr ''failed'' PNone)" "truthy v" "replace_method v d = Inr cmd"
      "execute_module h w1 (validate_call cmd) = (Inr vr, w2)"
      "ne_zero (dict_get vr ''rc'' (PInt 0))" "\<not> truthy bf"
      "go = (Returned (validation_failed h vr (copied_result h res cr d bs)), w2,
             [(dc, Inr cr), (validate_call cmd, Inr vr)])"
  | (restore_raised) cr w1 cmd vr w2 e w3 where "execute_module h w dc = (Inr cr, w1)"
      "\<not> truthy (dict_get cr ''failed'' PNone)" "truthy v" "replace_method v d = Inr cmd"
      "execute_module h w1 (validate_call cmd) = (Inr vr, w2)"
      "ne_zero (dict_get vr ''rc'' (PInt 0))" "truthy bf"
      "execute_module h w2 rc = (Inl e, w3)"
      "go = (Raised e (copied_result h res cr d bs), w3,
             [(dc, Inr cr), (validate_call cmd, Inr vr), (rc, Inl e)])"
  | (restored) cr w1 cmd vr w2 rr w3 where "execute_module h w dc = (Inr cr, w1)"
      "\<not> truthy (dict_get cr ''failed'' PNone)" "truthy v" "replace_method v d = Inr cmd"
      "execute_module h w1 (validate_call cmd) = (Inr vr, w2)"
      "ne_zero (dict_get vr ''rc'' (PInt 0))" "truthy bf"
      "execute_module h w2 rc = (Inr rr, w3)"
      "go = (Returned (validation_failed h vr (copied_result h res cr d bs)), w3,
             [(dc, Inr cr), (validate_call cmd, Inr vr), (rc, Inr rr)])"
proof -
  obtain r w1 where ex: "execute_module h w dc = (r, w1)"
    by (cases "execute_module h w dc")
  note defs = go_def dc_def copy_stage_def deploy_call_def logged_def Let_def
    copied_result_def copy_failed_result_def
  show ?thesis
  proof (cases r)
    case (Inl e)
    show ?thesis
      by (rule copy_raised [of e w1]) (use ex Inl in \<open>simp_all add: defs\<close>)
  next
    case cr: (Inr cr)
    show ?thesis
    proof (cases "truthy (dict_get cr ''failed'' PNone)")
      case True
      show ?thesis
        by (rule copy_failed [of cr w1]) (use ex cr True in \<open>simp_all add: defs\<close>)
    next
      case ok: False
      have go: "go = logged (dc, Inr cr)
          (validate_stage h p d v backup bf (copied_result h res cr d bs) w1)"
        using ex cr ok by (simp add: defs)
      from bk show ?thesis
      proof (cases rule: validate_stage_paths [where h = h and p = p and d = d and v = v
                and res = "copied_result h res cr d bs" and w = w1])
        case no_validation
        show ?thesis
          by (rule that(3) [of cr w1])
             (use ex cr ok no_validation go in \<open>simp_all add: logged_def\<close>)
      next
        case (replace_raised e)
        show ?thesis
          by (rule that(4) [of cr w1 e])
             (use ex cr ok replace_raised go in \<open>simp_all add: logged_def\<close>)
      next
        case (command_raised cmd e w2)
        show ?thesis
          by (rule that(5) [of cr w1 cmd e w2])
             (use ex cr ok command_raised go in \<open>simp_all add: logged_def\<close>)
      next
        case (passed cmd vr w2)
        show ?thesis
          by (rule that(6) [of cr w1 cmd vr w2])
             (use ex cr ok passed go in \<open>simp_all add: logged_def\<close>)
      next
        case (failed_no_backup cmd vr w2)
        show ?thesis
          by (rule that(7) [of cr w1 cmd vr w2])
             (use ex cr ok failed_no_backup go in \<open>simp_all add: logged_def\<close>)
      next
        case (restore_raised cmd vr w2 e w3)
        show ?thesis
          by (rule that(8) [of cr w1 cmd vr w2 e w3])
             (use ex cr ok restore_raised go in \<open>simp_all add: logged_def rc_def\<close>)
      next
        case (restored cmd vr w2 rr w3)
        show ?thesis
          by (rule that(9) [of cr w1 cmd vr w2 rr w3])
             (use ex cr ok restored go in \<open>simp_all add: logged_def rc_def\<close>)
      qed
    qed
  qed
qed

text \<open>Step 4: it raises, reports a failed backup, or hands over to step 5.\<close>

lemma backup_stage_paths:
  fixes h :: "'w host" and p cs d v backup ow gr mo ex res w1
  defines "bc \<equiv> backup_call h d"
      and "go \<equiv> backup_stage h p cs d v backup ow gr mo ex res w1"
  obtains
    (backup_raised) e w2 where "truthy backup" "truthy ex"
      "execute_module h w1 bc = (Inl e, w2)"
      "go = (Raised e res, w2, [(bc, Inl e)])"
  | (backup_failed) br w2 where "truthy backup" "truthy ex"
      "execute_module h w1 bc = (Inr br, w2)" "truthy (dict_get br ''failed'' PNone)"
      "go = (Returned (backup_failed_result h res br), w2, [(bc, Inr br)])"
  | (continued) bseg bf res0 w2 where "backup_step h d backup ex res w1 bseg bf res0 w2"
      "go = (case copy_stage h p cs d v backup ow gr mo bf res0 w2 of
               (out, w', tr) \<Rightarrow> (out, w', bseg @ tr))"
proof (cases "truthy backup \<and> truthy ex")
  case False
  show ?thesis
    by (rule continued [of "[]" PNone res w1])
       (use False in \<open>auto simp: go_def backup_stage_def backup_step_def\<close>)
next
  case tb: True
  obtain r w2 where ex: "execute_module h w1 bc = (r, w2)"
    by (cases "execute_module h w1 bc")
  note defs = go_def bc_def backup_stage_def backup_call_def backup_path_def logged_def Let_def
    backup_failed_result_def
  show ?thesis
  proof (cases r)
    case (Inl e)
    show ?thesis
      by (rule backup_raised [of e w2]) (use tb ex Inl in \<open>simp_all add: defs\<close>)
  next
    case br: (Inr br)
    show ?thesis
    proof (cases "truthy (dict_get br ''failed'' PNone)")
      case True
      show ?thesis
        by (rule backup_failed [of br w2]) (use tb ex br True in \<open>simp_all add: defs\<close>)
    next
      case False
      show ?thesis
        by (rule continued [of "[(bc, Inr br)]" "backup_path h d"
                "res(''backup_file'' \<mapsto> backup_path h d)" w2])
           (use tb ex br False in \<open>auto simp: defs backup_step_def split: prod.splits\<close>)
    qed
  qed
qed

text \<open>
  Every path through the \<open>try\<close> statement, with what each module invocation on it
  returned, the result dictionary, the final world and the log. \<open>src\<close> is the \<open>src\<close>
  argument, \<open>p\<close> the file found for it, \<open>bs\<close> its content, \<open>sr\<close> the response of
  \<open>stat\<close> and \<open>ex\<close> its \<open>exists\<close> entry.
\<close>

lemma attempt_paths:
  fixes h :: "'w host" and src d v backup ow gr mo res w
  defines "sc \<equiv> stat_call d"
      and "bc \<equiv> backup_call h d"
      and "dc \<equiv> \<lambda>p. deploy_call p d ow gr mo"
      and "rc \<equiv> restore_call h d"
      and "go \<equiv> attempt h src d v backup ow gr mo res w"
  obtains
    (source_not_found) e where "find_needle h w src = Inl e"
      "go = (handle (Raised e res), w, [])"
  | (source_unreadable) p e where "find_needle h w src = Inr p" "read_file h w p = Inl e"
      "go = (handle (Raised e res), w, [])"
  | (stat_raised) p bs e w1 where "find_needle h w src = Inr p" "read_file h w p = Inr bs"
      "execute_module h w sc = (Inl e, w1)"
      "go = (handle (Raised e res), w1, [(sc, Inl e)])"
  | (stat_malformed) p bs sr w1 e where "find_needle h w src = Inr p" "read_file h w p = Inr bs"
      "execute_module h w sc = (Inr sr, w1)" "stat_exists sr = Inl e"
      "go = (handle (Raised e res), w1, [(sc, Inr sr)])"
  | (backup_raised) p bs sr w1 ex e w2 where
      "find_needle h w src = Inr p" "read_file h w p = Inr bs"
      "execute_module h w sc = (Inr sr, w1)" "stat_exists sr = Inr ex"
      "truthy backup" "truthy ex" "execute_module h w1 bc = (Inl e, w2)"
      "go = (handle (Raised e res), w2, [(sc, Inr sr), (bc, Inl e)])"
  | (backup_failed) p bs sr w1 ex br w2 where
      "find_needle h w src = Inr p" "read_file h w p = Inr bs"
      "execute_module h w sc = (Inr sr, w1)" "stat_exists sr = Inr ex"
      "truthy backup" "truthy ex" "execute_module h w1 bc = (Inr br, w2)"
      "truthy (dict_get br ''failed'' PNone)"
      "go = (backup_failed_result h res br, w2, [(sc, Inr sr), (bc, Inr br)])"
  | (copy_raised) p bs sr w1 ex bseg bf res0 w2 e w3 where
      "find_needle h w src = Inr p" "read_file h w p = Inr bs"
      "execute_module h w sc = (Inr sr, w1)" "stat_exists sr = Inr ex"
      "backup_step h d backup ex res w1 bseg bf res0 w2"
      "execute_module h w2 (dc p) = (Inl e, w3)"
      "go = (handle (Raised e res0), w3, (sc, Inr sr) # bseg @ [(dc p, Inl e)])"
  | (copy_failed) p bs sr w1 ex bseg bf res0 w2 cr w3 where
      "find_needle h w src = Inr p" "read_file h w p = Inr bs"
      "execute_module h w sc = (Inr sr, w1)" "stat_exists sr = Inr ex"
      "backup_step h d backup ex res w1 bseg bf res0 w2"
      "execute_module h w2 (dc p) = (Inr cr, w3)" "truthy (dict_get cr ''failed'' PNone)"
      "go = (copy_failed_result h res0 cr, w3, (sc, Inr sr) # bseg @ [(dc p, Inr cr)])"
  | (no_validation) p bs sr w1 ex bseg bf res0 w2 cr w3 where
      "find_needle h w src = Inr p" "read_file h w p = Inr bs"
      "execute_module h w sc = (Inr sr, w1)" "stat_exists sr = Inr ex"
      "backup_step h d backup ex res w1 bseg bf res0 w2"
      "execute_module h w2 (dc p) = (Inr cr, w3)" "\<not> truthy (dict_get cr ''failed'' PNone)"
      "\<not> truthy v"
      "go = ((copied_result h res0 cr d bs)(''msg'' \<mapsto> success_msg h p d), w3,
             (sc, Inr sr) # bseg @ [(dc p, Inr cr)])"
  | (replace_raised) p bs sr w1 ex bseg bf res0 w2 cr w3 e where
      "find_needle h w src = Inr p" "read_file h w p = Inr bs"
      "execute_module h w sc = (Inr sr, w1)" "stat_exists sr = Inr ex"
      "backup_step h d backup ex res w1 bseg bf res0 w2"
      "execute_module h w2 (dc p) = (Inr cr, w3)" "\<not> truthy (dict_get cr ''failed'' PNone)"
      "truthy v" "replace_method v d = Inl e"
      "go = (handle (Raised e (copied_result h res0 cr d bs)), w3,
             (sc, Inr sr) # bseg @ [(dc p, Inr cr)])"
  | (command_raised) p bs sr w1 ex bseg bf res0 w2 cr w3 cmd e w4 where
      "find_needle h w src = Inr p" "read_file h w p = Inr bs"
      "execute_module h w sc = (Inr sr, w1)" "stat_exists sr = Inr ex"
      "backup_step h d backup ex res w1 bseg bf res0 w2"
      "execute_module h w2 (dc p) = (Inr cr, w3)" "\<not> truthy (dict_get cr ''failed'' PNone)"
      "truthy v" "replace_method v d = Inr cmd"
      "execute_module h w3 (validate_call cmd) = (Inl e, w4)"
      "go = (handle (Raised e (copied_result h res0 cr d bs)), w4,
             (sc, Inr sr) # bseg @ [(dc p, Inr cr), (validate_call cmd, Inl e)])"
  | (passed) p bs sr w1 ex bseg bf res0 w2 cr w3 cmd vr w4 where
      "find_needle h w src = Inr p" "read_file h w p = Inr bs"
      "execute_module h w sc = (Inr sr, w1)" "stat_exists sr = Inr ex"
      "backup_step h d backup ex res w1 bseg bf res0 w2"
      "execute_module h w2 (dc p) = (Inr cr, w3)" "\<not> truthy (dict_get cr ''failed'' PNone)"
      "truthy v" "replace_method v d = Inr cmd"
      "execute_module h w3 (validate_call cmd) = (Inr vr, w4)"
      "\<not> ne_zero (dict_get vr ''rc'' (PInt 0))"
      "go = ((copied_result h res0 cr d bs)(''validation'' \<mapsto> PStr ''passed'',
               ''validation_output'' \<mapsto> dict_get vr ''stdout'' (PStr ''''),
               ''msg'' \<mapsto> success_msg h p d), w4,
             (sc, Inr sr) # bseg @ [(dc p, Inr cr), (validate_call cmd, Inr vr)])"
  | (failed_no_backup) p bs sr w1 ex cr w3 cmd vr w4 where
      "find_needle h w src = Inr p" "read_file h w p = Inr bs"
      "execute_module h w sc = (Inr sr, w1)" "stat_exists sr = Inr ex"
      "\<not> (truthy backup \<and> truthy ex)"
      "execute_module h w1 (dc p) = (Inr cr, w3)" "\<not> truthy (dict_get cr ''failed'' PNone)"
      "truthy v" "replace_method v d = Inr cmd"
      "execute_module h w3 (validate_call cmd) = (Inr vr, w4)"
      "ne_zero (dict_get vr ''rc'' (PInt 0))"
      "go = (validation_failed h vr (copied_result h res cr d bs), w4,
             [(sc, Inr sr), (dc p, Inr cr), (validate_call cmd, Inr vr)])"
  | (restore_raised) p bs sr w1 ex br w2 cr w3 cmd vr w4 e w5 where
      "find_needle h w src = Inr p" "read_file h w p = Inr bs"
      "execute_module h w sc = (Inr sr, w1)" "stat_exists sr = Inr ex"
      "truthy backup" "truthy ex" "execute_module h w1 bc = (Inr br, w2)"
      "\<not> truthy (dict_get br ''failed'' PNone)"
      "execute_module h w2 (dc p) = (Inr cr, w3)" "\<not> truthy (dict_get cr ''failed'' PNone)"
      "truthy v" "replace_method v d = Inr cmd"
      "execute_module h w3 (validate_call cmd) = (Inr vr, w4)"
      "ne_zero (dict_get vr ''rc'' (PInt 0))"
      "execute_module h w4 rc = (Inl e, w5)"
      "go = (handle (Raised e
                (copied_result h (res(''backup_file'' \<mapsto> backup_path h d)) cr d bs)), w5,
             [(sc, Inr sr), (bc, Inr br), (dc p, Inr cr), (validate_call cmd, Inr vr),
              (rc, Inl e)])"
  | (restored) p bs sr w1 ex br w2 cr w3 cmd vr w4 rr w5 where
      "find_needle h w src = Inr p" "read_file h w p = Inr bs"
      "execute_module h w sc = (Inr sr, w1)" "stat_exists sr = Inr ex"
      "truthy backup" "truthy ex" "execute_module h w1 bc = (Inr br, w2)"
      "\<not> truthy (dict_get br ''failed'' PNone)"
      "execute_module h w2 (dc p) = (Inr cr, w3)" "\<not> truthy (dict_get cr ''failed'' PNone)"
      "truthy v" "replace_method v d = Inr cmd"
      "execute_module h w3 (validate_call cmd) = (Inr vr, w4)"
      "ne_zero (dict_get vr ''rc'' (PInt 0))"
      "execute_module h w4 rc = (Inr rr, w5)"
      "go = (validation_failed h vr
                (copied_result h (res(''backup_file'' \<mapsto> backup_path h d)) cr d bs), w5,
             [(sc, Inr sr), (bc, Inr br), (dc p, Inr cr), (validate_call cmd, Inr vr),
              (rc, Inr rr)])"
proof (cases "find_needle h w src")
  case (Inl e)
  show ?thesis
    by (rule source_not_found [of e]) (use Inl in \<open>simp_all add: go_def attempt_def try_body_def\<close>)
next
  case fn: (Inr p)
  show ?thesis
  proof (cases "read_file h w p")
    case (Inl e)
    show ?thesis
      by (rule source_unreadable [of p e])
         (use fn Inl in \<open>simp_all add: go_def attempt_def try_body_def\<close>)
  next
    case rd: (Inr bs)
    obtain r w1 where ex: "execute_module h w sc = (r, w1)"
      by (cases "execute_module h w sc")
    note defs = go_def sc_def attempt_def try_body_def stat_stage_def stat_call_def logged_def
      Let_def
    show ?thesis
    proof (cases r)
      case (Inl e)
      show ?thesis
        by (rule stat_raised [of p bs e w1]) (use fn rd ex Inl in \<open>simp_all add: defs\<close>)
    next
      case sr: (Inr sr)
      show ?thesis
      proof (cases "stat_exists sr")
        case (Inl e)
        show ?thesis
          by (rule stat_malformed [of p bs sr w1 e]) (use fn rd ex sr Inl in \<open>simp_all add: defs\<close>)
      next
        case se: (Inr ex')
        have go: "go = (case backup_stage h p (md5_hexdigest h bs) d v backup ow gr mo ex' res w1 of
                          (out, w', tr) \<Rightarrow> (handle out, w', (sc, Inr sr) # tr))"
          using fn rd ex sr se by (simp add: defs split: prod.splits)
        show ?thesis
        proof (cases rule: backup_stage_paths [where h = h and p = p
                  and cs = "md5_hexdigest h bs" and d = d and v = v and backup = backup
                  and ow = ow and gr = gr and mo = mo and ex = ex' and res = res and ?w1.0 = w1])
          case (backup_raised e w2)
          show ?thesis
            by (rule that(5) [of p bs sr w1 ex' e w2])
               (use fn rd ex sr se backup_raised go in \<open>simp_all add: bc_def\<close>)
        next
          case (backup_failed br w2)
          show ?thesis
            by (rule that(6) [of p bs sr w1 ex' br w2])
               (use fn rd ex sr se backup_failed go in \<open>simp_all add: bc_def\<close>)
        next
          case (continued bseg bf res0 w2)
          note bs' = continued(1)
          have bk: "truthy bf \<longrightarrow> truthy backup"
            using bs' by (rule backup_step_guard)
          have go': "go = (case copy_stage h p (md5_hexdigest h bs) d v backup ow gr mo bf res0 w2 of
                          (out, w', tr) \<Rightarrow> (handle out, w', (sc, Inr sr) # bseg @ tr))"
            using go continued(2) by (simp split: prod.splits)
          have pre: "find_needle h w src = Inr p" "read_file h w p = Inr bs"
            "execute_module h w sc = (Inr sr, w1)" "stat_exists sr = Inr ex'"
            using fn rd ex sr se by simp_all
          from bk show ?thesis
          proof (cases rule: copy_stage_paths [where h = h and p = p and bs = bs and d = d
                    and v = v and ow = ow and gr = gr and mo = mo and res = res0 and w = w2])
            case (copy_raised e w3)
            show ?thesis
              by (rule that(7) [of p bs sr w1 ex' bseg bf res0 w2 e w3])
                 (use pre bs' copy_raised go' in \<open>simp_all add: dc_def\<close>)
          next
            case (copy_failed cr w3)
            show ?thesis
              by (rule that(8) [of p bs sr w1 ex' bseg bf res0 w2 cr w3])
                 (use pre bs' copy_failed go' in \<open>simp_all add: dc_def\<close>)
          next
            case (no_validation cr w3)
            show ?thesis
              by (rule that(9) [of p bs sr w1 ex' bseg bf res0 w2 cr w3])
                 (use pre bs' no_validation go' in \<open>simp_all add: dc_def\<close>)
          next
            case (replace_raised cr w3 e)
            show ?thesis
              by (rule that(10) [of p bs sr w1 ex' bseg bf res0 w2 cr w3 e])
                 (use pre bs' replace_raised go' in \<open>simp_all add: dc_def\<close>)
          next
            case (command_raised cr w3 cmd e w4)
            show ?thesis
              by (rule that(11) [of p bs sr w1 ex' bseg bf res0 w2 cr w3 cmd e w4])
                 (use pre bs' command_raised go' in \<open>simp_all add: dc_def\<close>)
          next
            case (passed cr w3 cmd vr w4)
            show ?thesis
              by (rule that(12) [of p bs sr w1 ex' bseg bf res0 w2 cr w3 cmd vr w4])
                 (use pre bs' passed go' in \<open>simp_all add: dc_def\<close>)
          next
            case (failed_no_backup cr w3 cmd vr w4)
            from bs' \<open>\<not> truthy bf\<close>
            have nb: "\<not> (truthy backup \<and> truthy ex')" "bseg = []" "res0 = res" "w2 = w1"
              by (auto simp: backup_step_def backup_path_def)
            show ?thesis
              by (rule that(13) [of p bs sr w1 ex' cr w3 cmd vr w4])
                 (use pre nb failed_no_backup go' in \<open>simp_all add: dc_def\<close>)
          next
            case (restore_raised cr w3 cmd vr w4 e w5)
            from bs' \<open>truthy bf\<close>
            obtain br where yb: "truthy backup" "truthy ex'" "bf = backup_path h d"
              "res0 = res(''backup_file'' \<mapsto> backup_path h d)"
              "execute_module h w1 bc = (Inr br, w2)"
              "\<not> truthy (dict_get br ''failed'' PNone)" "bseg = [(bc, Inr br)]"
              by (auto simp: backup_step_def bc_def)
            show ?thesis
              by (rule that(14) [of p bs sr w1 ex' br w2 cr w3 cmd vr w4 e w5])
                 (use pre yb restore_raised go' in \<open>simp_all add: dc_def rc_def restore_call_def\<close>)
          next
            case (restored cr w3 cmd vr w4 rr w5)
            from bs' \<open>truthy bf\<close>
            obtain br where yb: "truthy backup" "truthy ex'" "bf = backup_path h d"
              "res0 = res(''backup_file'' \<mapsto> backup_path h d)"
              "execute_module h w1 bc = (Inr br, w2)"
              "\<not> truthy (dict_get br ''failed'' PNone)" "bseg = [(bc, Inr br)]"
              by (auto simp: backup_step_def bc_def)
            show ?thesis
              by (rule that(15) [of p bs sr w1 ex' br w2 cr w3 cmd vr w4 rr w5])
                 (use pre yb restored go' in \<open>simp_all add: dc_def rc_def restore_call_def\<close>)
          qed
        qed
      qed
    qed
  qed
qed

section \<open>Facts about \<open>run\<close> shared by the theorems below\<close>

lemma run_attempt:
  assumes "dict_get args ''src'' PNone \<noteq> PNone" and "dict_get args ''dest'' PNone \<noteq> PNone"
  shows "run h args w =
           attempt h (dict_get args ''src'' PNone) (dict_get args ''dest'' PNone)
             (dict_get args ''validate'' PNone) (dict_get args ''backup'' (PBool True))
             (dict_get args ''owner'' PNone) (dict_get args ''group'' PNone)
             (dict_get args ''mode'' PNone) base_result w"
  using assms by (simp add: run_def Let_def)

lemma run_trace_nonempty:
  assumes "x \<in> set (run_trace h args w)"
  shows "dict_get args ''src'' PNone \<noteq> PNone \<and> dict_get args ''dest'' PNone \<noteq> PNone"
  using assms by (auto simp: run_trace_def run_def Let_def split: if_splits)

text \<open>The invocations differ from one another.\<close>

lemma backup_call_neq_deploy_call: "backup_call h d \<noteq> deploy_call p d' ow gr mo"
  by (simp add: backup_call_def deploy_call_def copy_args_def)

lemma restore_call_neq_deploy_call: "restore_call h d \<noteq> deploy_call p d' ow gr mo"
  by (simp add: restore_call_def deploy_call_def copy_args_def)

lemma backup_path_neq: "backup_path h d \<noteq> d"
  by (cases d) (simp_all add: backup_path_def py_str_def)

lemma backup_call_neq_restore_call: "backup_call h d \<noteq> restore_call h d"
  using backup_path_neq [of h d] by (auto simp: backup_call_def restore_call_def)

lemma mod_name_calls:
  "mod_name (stat_call d) = ''stat''"
  "mod_name (backup_call h d) = ''copy''"
  "mod_name (deploy_call p d ow gr mo) = ''copy''"
  "mod_name (validate_call cmd) = ''command''"
  "mod_name (restore_call h d) = ''copy''"
  "mod_name (delete_call h d) = ''file''"
  by (simp_all add: stat_call_def backup_call_def deploy_call_def validate_call_def
        restore_call_def delete_call_def)

lemma calls_distinct:
  "stat_call d \<noteq> backup_call h d'" "backup_call h d' \<noteq> stat_call d"
  "stat_call d \<noteq> deploy_call p d' ow gr mo" "deploy_call p d' ow gr mo \<noteq> stat_call d"
  "stat_call d \<noteq> validate_call cmd" "validate_call cmd \<noteq> stat_call d"
  "stat_call d \<noteq> restore_call h d'" "restore_call h d' \<noteq> stat_call d"
  "validate_call cmd \<noteq> backup_call h d" "backup_call h d \<noteq> validate_call cmd"
  "validate_call cmd \<noteq> deploy_call p d ow gr mo" "deploy_call p d ow gr mo \<noteq> validate_call cmd"
  "validate_call cmd \<noteq> restore_call h d" "restore_call h d \<noteq> validate_call cmd"
  "backup_call h d \<noteq> deploy_call p d' ow gr mo" "deploy_call p d' ow gr mo \<noteq> backup_call h d"
  "restore_call h d \<noteq> deploy_call p d' ow gr mo" "deploy_call p d' ow gr mo \<noteq> restore_call h d"
  "backup_call h d \<noteq> restore_call h d" "restore_call h d \<noteq> backup_call h d"
  using backup_call_neq_deploy_call [of h d p d' ow gr mo]
    restore_call_neq_deploy_call [of h d p d' ow gr mo]
    backup_call_neq_restore_call [of h d]
  by (auto simp: stat_call_def backup_call_def deploy_call_def validate_call_def
        restore_call_def)

lemma validate_call_inject: "validate_call a = validate_call b \<longleftrightarrow> a = b"
  by (simp add: validate_call_def)

text \<open>The paths of a run, in terms of its task arguments.\<close>

lemmas attempt_paths_args = attempt_paths [where res = base_result
          and src = "dict_get args ''src'' PNone" and d = "dict_get args ''dest'' PNone"
          and v = "dict_get args ''validate'' PNone"
          and backup = "dict_get args ''backup'' (PBool True)"
          and ow = "dict_get args ''owner'' PNone" and gr = "dict_get args ''group'' PNone"
          and mo = "dict_get args ''mode'' PNone"] for args

text \<open>The definitions a run on a concrete runtime unfolds to.\<close>

lemmas eval_defs = run_trace_def run_result_def run_world_def run_def attempt_def try_body_def
  stat_stage_def backup_stage_def copy_stage_def validate_stage_def cleanup_def logged_def
  Let_def base_result_def validation_failed_def copy_args_def stat_exists_def replace_method_def
  dict_get_def py_str_def stat_call_def backup_call_def backup_path_def deploy_call_def
  validate_call_def restore_call_def delete_call_def


text \<open>\<open>follows_directly\<close> in terms of the list.\<close>

lemma follows_directly_split:
  "follows_directly a b tr \<Longrightarrow> \<exists>pre post. tr = pre @ a # b # post"
proof (induction a b tr rule: follows_directly.induct)
  case (1 a b x y ys)
  from "1.prems" consider "x = a \<and> y = b" | "follows_directly a b (y # ys)" by auto
  then show ?case
  proof cases
    case 1
    then have "x # y # ys = [] @ a # b # ys" by simp
    then show ?thesis by blast
  next
    case 2
    with "1.IH" obtain pre post where "y # ys = pre @ a # b # post" by auto
    then have "x # y # ys = (x # pre) @ a # b # post" by simp
    then show ?thesis by blast
  qed
qed simp_all

section \<open>Missing arguments\<close>

text \<open>
  C4. When \<open>src\<close> or \<open>dest\<close> is absent from the task arguments (or given as \<open>None\<close>, which
  the code does not tell apart), the result has \<open>failed = True\<close> and the message naming
  the missing argument, the world is the one the run started in and no module was
  invoked.
\<close>

theorem missing_argument_fails_without_remote_operation:
  assumes "dict_get args ''src'' PNone = PNone \<or> dict_get args ''dest'' PNone = PNone"
  shows "run_result h args w ''failed'' = Some (PBool True)
       \<and> (run_result h args w ''msg'' = Some (PStr ''src is required'')
          \<or> run_result h args w ''msg'' = Some (PStr ''dest is required''))
       \<and> run_world h args w = w
       \<and> run_trace h args w = []"
  using assms by (auto simp: run_def run_result_def run_world_def run_trace_def Let_def)

theorem missing_argument_witness:
  "dict_get [(''dest'', PStr ''/etc/nginx/nginx.conf'')] ''src'' PNone = PNone
   \<and> run_result scripted [(''dest'', PStr ''/etc/nginx/nginx.conf'')] [stat_absent] ''failed''
       = Some (PBool True)
   \<and> (run_result scripted [(''dest'', PStr ''/etc/nginx/nginx.conf'')] [stat_absent] ''msg''
         = Some (PStr ''src is required'')
      \<or> run_result scripted [(''dest'', PStr ''/etc/nginx/nginx.conf'')] [stat_absent] ''msg''
         = Some (PStr ''dest is required''))
   \<and> run_world scripted [(''dest'', PStr ''/etc/nginx/nginx.conf'')] [stat_absent] = [stat_absent]
   \<and> run_trace scripted [(''dest'', PStr ''/etc/nginx/nginx.conf'')] [stat_absent] = []"
  using missing_argument_fails_without_remote_operation
          [of "[(''dest'', PStr ''/etc/nginx/nginx.conf'')]" scripted "[stat_absent]"]
  by (simp add: dict_get_def)

section \<open>A failed backup\<close>

text \<open>
  C3. Whenever the backup copy (destination to destination + \<open>.backup\<close>, which the run
  issues only when \<open>backup\<close> is requested and \<open>stat\<close> reports the destination as
  existing) comes back reporting failure, the result has \<open>failed = True\<close> and the message
  \<open>Backup failed: ...\<close>, the \<open>stat\<close> and the backup copy are all the run issued, and so no
  copy of the source to the destination is among its invocations.
\<close>

theorem backup_failure_aborts_before_copy:
  fixes h :: "'w host" and args w br
  defines "dest \<equiv> dict_get args ''dest'' PNone"
  assumes issued: "(backup_call h dest, Inr br) \<in> set (run_trace h args w)"
      and failed: "truthy (dict_get br ''failed'' PNone)"
  shows "run_result h args w ''failed'' = Some (PBool True)
       \<and> run_result h args w ''msg''
           = Some (PStr (''Backup failed: '' @ py_str h (dict_get br ''msg'' PNone)))
       \<and> (\<exists>sr. run_trace h args w = [(stat_call dest, Inr sr), (backup_call h dest, Inr br)])
       \<and> (\<forall>p ow gr mo r. (deploy_call p dest ow gr mo, r) \<notin> set (run_trace h args w))"
proof -
  note run = run_attempt [OF run_trace_nonempty [OF issued, THEN conjunct1]
                             run_trace_nonempty [OF issued, THEN conjunct2], of h w]
  show ?thesis
    using issued failed
    unfolding run_trace_def run_result_def run dest_def
    by (cases rule: attempt_paths [where h = h and w = w and res = base_result
          and src = "dict_get args ''src'' PNone" and d = "dict_get args ''dest'' PNone"
          and v = "dict_get args ''validate'' PNone"
          and backup = "dict_get args ''backup'' (PBool True)"
          and ow = "dict_get args ''owner'' PNone" and gr = "dict_get args ''group'' PNone"
          and mo = "dict_get args ''mode'' PNone"])
       (auto simp: calls_distinct backup_step_def backup_failed_result_def)
qed

theorem backup_failure_witness:
  "(backup_call scripted (PStr ''/etc/nginx/nginx.conf''),
      Inr [(''failed'', PBool True), (''msg'', PStr ''disk full'')])
     \<in> set (run_trace scripted nginx_args
               [stat_present, Inr [(''failed'', PBool True), (''msg'', PStr ''disk full'')]])
   \<and> run_result scripted nginx_args
         [stat_present, Inr [(''failed'', PBool True), (''msg'', PStr ''disk full'')]] ''failed''
       = Some (PBool True)
   \<and> run_result scripted nginx_args
         [stat_present, Inr [(''failed'', PBool True), (''msg'', PStr ''disk full'')]] ''msg''
       = Some (PStr ''Backup failed: disk full'')
   \<and> run_trace scripted nginx_args
         [stat_present, Inr [(''failed'', PBool True), (''msg'', PStr ''disk full'')]]
       = [(stat_call (PStr ''/etc/nginx/nginx.conf''), stat_present),
          (backup_call scripted (PStr ''/etc/nginx/nginx.conf''),
           Inr [(''failed'', PBool True), (''msg'', PStr ''disk full'')])]"
  using backup_failure_aborts_before_copy
          [where h = scripted and args = nginx_args
             and w = "[stat_present, Inr [(''failed'', PBool True), (''msg'', PStr ''disk full'')]]"
             and br = "[(''failed'', PBool True), (''msg'', PStr ''disk full'')]"]
  by (simp add: eval_defs scripted_def nginx_args_def stat_present_def)

section \<open>A destination that does not exist yet\<close>



section \<open>A failed validation\<close>




section \<open>The validation command\<close>



text \<open>
  What the substitution does to a template whose pieces between the \<open>%s\<close> tokens hold no
  percent sign: each token is replaced, the pieces stay.
\<close>

lemma replace_percent_s_plain:
  "CHR ''%'' \<notin> set x \<Longrightarrow> replace_percent_s d (x @ rest) = x @ replace_percent_s d rest"
proof (induction x)
  case Nil
  show ?case by simp
next
  case (Cons c cs)
  then show ?case by (cases "cs @ rest") auto
qed

lemma replace_percent_s_join:
  "\<forall>x \<in> set xs. CHR ''%'' \<notin> set x \<Longrightarrow> replace_percent_s d (join ''%s'' xs) = join d xs"
proof (induction xs)
  case Nil
  show ?case by simp
next
  case (Cons x xs)
  show ?case
  proof (cases xs)
    case Nil
    then show ?thesis using Cons.prems replace_percent_s_plain [of x d "[]"] by simp
  next
    case (Cons y ys)
    then show ?thesis
      using Cons.prems Cons.IH replace_percent_s_plain [of x d "''%s'' @ join ''%s'' (y # ys)"]
      by simp
  qed
qed

section \<open>No deletion before the validation\<close>

text \<open>
  The monitor holds of every stage of \<open>run\<close>, for any values of \<open>backup\<close> and
  \<open>backup_file\<close>: in step 6 a deletion is issued only after a validation command that came
  back with exit code zero, or with no validation command at all, in which case the copy
  before it had come back without reporting failure.
\<close>

lemma trace_logged: "snd (snd (logged e x)) = e # snd (snd x)"
  by (simp add: logged_def split: prod.splits)

lemma cleanup_guarded:
  "deletions_guarded dest validating True (snd (snd (cleanup h p dest backup bf res w)))"
  by (simp add: cleanup_def Let_def trace_logged split: prod.splits sum.splits)

lemma validate_stage_guarded:
  "deletions_guarded dest (truthy v) (\<not> truthy v)
     (snd (snd (validate_stage h p dest v backup bf res w)))"
  by (simp add: validate_stage_def Let_def trace_logged cleanup_guarded is_delete_def
        validation_passed_def split: prod.splits sum.splits)

lemma validate_stage_guarded_cases:
  "truthy v \<Longrightarrow>
     deletions_guarded dest True False (snd (snd (validate_stage h p dest v backup bf res w)))"
  "\<not> truthy v \<Longrightarrow>
     deletions_guarded dest False True (snd (snd (validate_stage h p dest v backup bf res w)))"
  using validate_stage_guarded [of dest v h p backup bf res w] by simp_all

lemma deploy_copy_succeeded:
  "\<not> truthy (dict_get cr ''failed'' PNone) \<Longrightarrow>
   copy_succeeded dest (Call ''copy'' (copy_args p dest ow gr mo), Inr cr)"
  by (simp add: copy_succeeded_def is_deploy_copy_def copy_args_def)

lemma copy_stage_guarded:
  "deletions_guarded dest (truthy v) False
     (snd (snd (copy_stage h p cs dest v backup ow gr mo bf res w)))"
  by (simp add: copy_stage_def Let_def trace_logged is_delete_def validation_passed_def
        deploy_copy_succeeded validate_stage_guarded_cases split: prod.splits sum.splits)

lemma copy_stage_guarded_cases:
  "truthy v \<Longrightarrow>
     deletions_guarded dest True False
       (snd (snd (copy_stage h p cs dest v backup ow gr mo bf res w)))"
  "\<not> truthy v \<Longrightarrow>
     deletions_guarded dest False False
       (snd (snd (copy_stage h p cs dest v backup ow gr mo bf res w)))"
  using copy_stage_guarded [of dest v h p cs backup ow gr mo bf res w] by simp_all

lemma backup_copy_not_deploy:
  "\<not> copy_succeeded dest
       (Call ''copy'' [(''src'', dest), (''dest'', bp), (''remote_src'', PBool True)], r)"
  by (simp add: copy_succeeded_def is_deploy_copy_def split: sum.splits)

lemma backup_stage_guarded:
  "deletions_guarded dest (truthy v) False
     (snd (snd (backup_stage h p cs dest v backup ow gr mo ex res w)))"
  by (simp add: backup_stage_def Let_def trace_logged is_delete_def validation_passed_def
        backup_copy_not_deploy copy_stage_guarded_cases split: prod.splits sum.splits)

lemma backup_stage_guarded_cases:
  "truthy v \<Longrightarrow>
     deletions_guarded dest True False
       (snd (snd (backup_stage h p cs dest v backup ow gr mo ex res w)))"
  "\<not> truthy v \<Longrightarrow>
     deletions_guarded dest False False
       (snd (snd (backup_stage h p cs dest v backup ow gr mo ex res w)))"
  using backup_stage_guarded [of dest v h p cs backup ow gr mo ex res w] by simp_all

lemma stat_not_deploy: "\<not> copy_succeeded dest (Call ''stat'' a, r)"
  by (simp add: copy_succeeded_def is_deploy_copy_def split: sum.splits)

lemma try_body_guarded:
  "deletions_guarded dest (truthy v) False
     (snd (snd (try_body h src dest v backup ow gr mo res w)))"
  by (simp add: try_body_def stat_stage_def Let_def trace_logged is_delete_def
        validation_passed_def stat_not_deploy backup_stage_guarded_cases
        split: prod.splits sum.splits)

text \<open>
  C2. In the log of every run, no invocation deleting a file comes before the validation
  command has come back with exit code zero when the request has a validation command, or
  before the copy to the destination has come back without reporting failure when it has
  none.
\<close>

theorem no_deletion_before_validation:
  "deletions_guarded (dict_get args ''dest'' PNone) (truthy (dict_get args ''validate'' PNone))
     False (run_trace h args w)"
  using try_body_guarded [of "dict_get args ''dest'' PNone" "dict_get args ''validate'' PNone" h
           "dict_get args ''src'' PNone" "dict_get args ''backup'' (PBool True)"
           "dict_get args ''owner'' PNone" "dict_get args ''group'' PNone"
           "dict_get args ''mode'' PNone" base_result w]
  by (auto simp: run_trace_def run_def attempt_def Let_def split: prod.splits)

text \<open>The monitor does refuse a log whose deletion comes first.\<close>

lemma deletions_guarded_refuses:
  "\<not> deletions_guarded d validating False
       [(Call ''file'' [(''path'', bp), (''state'', PStr ''absent'')], r), e]"
  by (simp add: is_delete_def)

section \<open>A passed validation, and the backup afterwards\<close>

text \<open>
  What holds of C5. Whenever the validation command comes back with exit code zero (or
  with none, which the code reads as zero), it is the last invocation of the run, the
  result has no \<open>failed\<close> entry, \<open>validation\<close> is \<open>passed\<close> and \<open>validation_output\<close> is the
  captured standard output (or the empty string).
\<close>

lemma passed_validation_result:
  fixes h :: "'w host" and args w cmd vr
  assumes issued: "(validate_call cmd, Inr vr) \<in> set (run_trace h args w)"
      and zero: "\<not> ne_zero (dict_get vr ''rc'' (PInt 0))"
  shows "run_result h args w ''failed'' = None
       \<and> run_result h args w ''validation'' = Some (PStr ''passed'')
       \<and> run_result h args w ''validation_output'' = Some (dict_get vr ''stdout'' (PStr ''''))
       \<and> (\<exists>pre. run_trace h args w = pre @ [(validate_call cmd, Inr vr)])"
proof -
  note run = run_attempt [OF run_trace_nonempty [OF issued, THEN conjunct1]
                             run_trace_nonempty [OF issued, THEN conjunct2], of h w]
  show ?thesis
    using issued zero
    unfolding run_trace_def run_result_def run
    by (cases rule: attempt_paths_args [where h = h and w = w and args = args])
       (auto simp: calls_distinct backup_step_def validate_call_inject copied_result_def
          base_result_def)
qed

text \<open>
  No run invokes the \<open>file\<close> module: step 4 sets \<open>backup_file\<close> only under a truthy
  \<open>backup\<close>, and step 7 deletes only under a truthy \<open>backup_file\<close> and a falsy \<open>backup\<close>.
\<close>

lemma run_never_deletes:
  "(c, r) \<in> set (run_trace h args w) \<Longrightarrow> mod_name c \<noteq> ''file''"
proof -
  assume issued: "(c, r) \<in> set (run_trace h args w)"
  note run = run_attempt [OF run_trace_nonempty [OF issued, THEN conjunct1]
                             run_trace_nonempty [OF issued, THEN conjunct2], of h w]
  show ?thesis
    using issued unfolding run_trace_def run
    by (cases rule: attempt_paths_args [where h = h and w = w and args = args])
       (auto simp: mod_name_calls backup_step_def)
qed

text \<open>
  C5 at a request with \<open>backup: false\<close>, an existing destination and a validation that
  passes: the run issues \<open>stat\<close>, the copy and the validation command, no backup copy and
  no deletion; the answer scripted for a fourth invocation is left unused.
\<close>

theorem backup_false_issues_no_deletion:
  "run_trace scripted no_backup_args [stat_present, changed_ok, Inr validation_rc0, Inr []]
     = [(stat_call (PStr ''/etc/nginx/nginx.conf''), stat_present),
        (deploy_call ''/files/nginx.conf'' (PStr ''/etc/nginx/nginx.conf'') PNone PNone PNone,
         changed_ok),
        (validate_call ''nginx -t -c /etc/nginx/nginx.conf'', Inr validation_rc0)]
   \<and> run_world scripted no_backup_args [stat_present, changed_ok, Inr validation_rc0, Inr []]
     = [Inr []]
   \<and> run_result scripted no_backup_args
        [stat_present, changed_ok, Inr validation_rc0, Inr []] ''validation''
     = Some (PStr ''passed'')
   \<and> run_result scripted no_backup_args
        [stat_present, changed_ok, Inr validation_rc0, Inr []] ''backup_file''
     = None"
  by (simp add: eval_defs scripted_def stat_present_def changed_ok_def no_backup_args_def
        validation_rc0_def)

section \<open>The checksum and the deployed bytes\<close>








section \<open>The permission filters invert each other\<close>

text \<open>On a string of octal digits \<open>int(s, 8)\<close> is the number the digits denote.\<close>

lemma octal_digit_char:
  assumes "octal_digit c = Some v"
  shows "v < 8 \<and> c = char_of (48 + v)"
proof -
  from assms have n: "48 \<le> (of_char c :: nat)" "(of_char c :: nat) \<le> 55" "v = of_char c - 48"
    by (auto simp: octal_digit_def Let_def split: if_splits)
  then have "48 + v = (of_char c :: nat)" by simp
  then have "char_of (48 + v) = c" by (metis char_of_comp_of_char comp_apply id_apply)
  with n show ?thesis by simp
qed

lemma digit_not_space: "octal_digit c \<noteq> None \<Longrightarrow> \<not> is_space c"
  by (auto simp: octal_digit_def is_space_def Let_def split: if_splits)

lemma digit_not_special:
  assumes "octal_digit c \<noteq> None"
  shows "c \<noteq> CHR ''-''" "c \<noteq> CHR ''+''" "c \<noteq> CHR ''o''" "c \<noteq> CHR ''O''" "c \<noteq> CHR ''_''"
  using assms by (auto simp: octal_digit_def Let_def)

lemma scan_octal_digits:
  "octal_string s \<Longrightarrow>
   scan_octal (int acc) b s = (if s = [] then (if b then Some (int acc) else None)
                               else Some (int (octal_value acc s)))"
proof (induction s arbitrary: acc b)
  case Nil
  show ?case by simp
next
  case (Cons c cs)
  from Cons.prems obtain v where v: "octal_digit c = Some v" and cs: "octal_string cs"
    by (auto simp: octal_string_def)
  have "scan_octal (int acc) b (c # cs) = scan_octal (int (8 * acc + v)) True cs"
    using v digit_not_special(5) [of c] by simp
  also have "\<dots> = Some (int (octal_value (8 * acc + v) cs))"
    using Cons.IH [OF cs, of "8 * acc + v" True] by (simp add: octal_value_def)
  finally show ?case using v by (simp add: octal_value_def)
qed

lemma strip_spaces_digits:
  assumes "octal_string s"
  shows "strip_spaces s = s"
proof (cases s rule: rev_cases)
  case Nil
  then show ?thesis by (simp add: strip_spaces_def)
next
  case (snoc xs x)
  from assms snoc have x: "\<not> is_space x"
    by (simp add: octal_string_def digit_not_space)
  have "s \<noteq> []" using snoc by simp
  then obtain c cs where s: "s = c # cs" by (cases s) simp_all
  with assms have c: "\<not> is_space c"
    by (simp add: octal_string_def digit_not_space)
  have front: "dropWhile is_space s = s" using s c by simp
  have "rev s = x # rev xs" using snoc by simp
  then have rear: "dropWhile is_space (rev s) = rev s" using x by simp
  show ?thesis by (simp add: strip_spaces_def front rear)
qed

lemma letter_o_no_digit: "octal_digit CHR ''o'' = None" "octal_digit CHR ''O'' = None"
  by (simp_all add: octal_digit_def)

lemma skip_octal_prefix_digits: "octal_string s \<Longrightarrow> skip_octal_prefix s = s"
  by (auto simp: skip_octal_prefix_def octal_string_def letter_o_no_digit split: list.splits)

lemma int_base8_digits:
  assumes "octal_string s" "s \<noteq> []"
  shows "int_base8 s = Some (int (octal_value 0 s))"
proof -
  from assms obtain c cs where s: "s = c # cs" by (cases s) auto
  with assms have "octal_digit c \<noteq> None" by (simp add: octal_string_def)
  then have "c \<noteq> CHR ''-''" "c \<noteq> CHR ''+''" by (rule digit_not_special)+
  then show ?thesis
    using assms s scan_octal_digits [OF assms(1), of 0 False]
    by (simp add: int_base8_def strip_spaces_digits skip_octal_prefix_digits Let_def)
qed

text \<open>
  \<open>symbolic_to_octal\<close> reads a nine-character string group by group, and on what
  \<open>octal_to_symbolic\<close> renders of a number below \<open>0o1000\<close> it gives the number's octal
  digits.
\<close>

lemma if_of_bool: "(if P then k else 0) = k * of_bool P" for k :: int
  by simp

lemma group_value_Cons:
  "group_value [a, b, c] = 4 * of_bool (a = CHR ''r'') + 2 * of_bool (b = CHR ''w'')
                           + 1 * of_bool (c = CHR ''x'')"
  by (simp add: group_value_def)

lemma symbolic_value_groups:
  "(if a1 = CHR ''r'' then 256 else 0) + (if a2 = CHR ''w'' then 128 else 0)
   + (if a3 = CHR ''x'' then 64 else 0) + (if b1 = CHR ''r'' then 32 else 0)
   + (if b2 = CHR ''w'' then 16 else 0) + (if b3 = CHR ''x'' then 8 else 0)
   + (if c1 = CHR ''r'' then 4 else 0) + (if c2 = CHR ''w'' then 2 else 0)
   + (if c3 = CHR ''x'' then (1::int) else 0)
   = 64 * group_value [a1, a2, a3] + 8 * group_value [b1, b2, b3] + group_value [c1, c2, c3]"
  unfolding group_value_Cons if_of_bool by (simp only: algebra_simps)

lemma symbolic_to_octal_groups:
  assumes "length g1 = 3" "length g2 = 3" "length g3 = 3"
  shows "symbolic_to_octal (g1 @ g2 @ g3)
         = Inr (drop 2 (py_oct (64 * group_value g1 + 8 * group_value g2 + group_value g3)))"
proof -
  from assms obtain a1 a2 a3 b1 b2 b3 c1 c2 c3
    where g: "g1 = [a1, a2, a3]" "g2 = [b1, b2, b3]" "g3 = [c1, c2, c3]"
    by (auto simp: length_Suc_conv numeral_3_eq_3)
  have nth: "[a1, a2, a3, b1, b2, b3, c1, c2, c3] ! 0 = a1"
    "[a1, a2, a3, b1, b2, b3, c1, c2, c3] ! 1 = a2"
    "[a1, a2, a3, b1, b2, b3, c1, c2, c3] ! 2 = a3"
    "[a1, a2, a3, b1, b2, b3, c1, c2, c3] ! 3 = b1"
    "[a1, a2, a3, b1, b2, b3, c1, c2, c3] ! 4 = b2"
    "[a1, a2, a3, b1, b2, b3, c1, c2, c3] ! 5 = b3"
    "[a1, a2, a3, b1, b2, b3, c1, c2, c3] ! 6 = c1"
    "[a1, a2, a3, b1, b2, b3, c1, c2, c3] ! 7 = c2"
    "[a1, a2, a3, b1, b2, b3, c1, c2, c3] ! 8 = c3"
    by simp_all
  have "symbolic_to_octal [a1, a2, a3, b1, b2, b3, c1, c2, c3]
        = Inr (drop 2 (py_oct (64 * group_value [a1, a2, a3] + 8 * group_value [b1, b2, b3]
                 + group_value [c1, c2, c3])))"
    unfolding symbolic_to_octal_def Let_def nth symbolic_value_groups by simp
  then show ?thesis by (simp add: g)
qed

lemma and_7_mod: "and x 7 = x mod 8" for x :: int
  using take_bit_eq_mod [of 3 x] take_bit_eq_mask [of 3 x]
  by (simp add: mask_eq_exp_minus_1)

lemma group_value_perm_str:
  "group_value (perm_str n shift) = and (drop_bit shift n) 7"
proof -
  let ?x = "and (drop_bit shift n) 7"
  have "0 \<le> ?x" "?x < 8" by (simp_all add: and_7_mod)
  then have "?x = 0 \<or> ?x = 1 \<or> ?x = 2 \<or> ?x = 3 \<or> ?x = 4 \<or> ?x = 5 \<or> ?x = 6 \<or> ?x = 7"
    by arith
  then show ?thesis
    unfolding perm_str_def Let_def
    by (elim disjE) (simp_all add: group_value_def)
qed

lemma groups_of_value:
  fixes n :: int
  assumes "0 \<le> n" "n < 512"
  shows "64 * and (drop_bit 6 n) 7 + 8 * and (drop_bit 3 n) 7 + and (drop_bit 0 n) 7 = n"
proof -
  have 1: "n mod 64 = 8 * (n div 8 mod 8) + n mod 8"
    using zmod_zmult2_eq [of 8 n 8] by simp
  have "0 \<le> n div 64" "n div 64 < 8" using assms by simp_all
  then have 2: "n div 64 mod 8 = n div 64" by simp
  have "64 * (n div 64) + n mod 64 = n" by simp
  with 1 have "64 * (n div 64) + 8 * (n div 8 mod 8) + n mod 8 = n" by linarith
  then show ?thesis
    using 2 by (simp add: and_7_mod drop_bit_eq_div)
qed

lemma render_then_parse:
  fixes n :: int
  assumes "0 \<le> n" "n < 512"
  shows "symbolic_to_octal (concat (map (perm_str n) [6, 3, 0])) = Inr (digits_of 8 (nat n))"
proof -
  have len: "length (perm_str n k) = 3" for k by (simp add: perm_str_def Let_def)
  have "symbolic_to_octal (perm_str n 6 @ perm_str n 3 @ perm_str n 0)
        = Inr (drop 2 (py_oct n))"
    using symbolic_to_octal_groups [OF len len len, of 6 3 0] groups_of_value [OF assms]
    by (simp add: group_value_perm_str)
  then show ?thesis using assms by (simp add: py_oct_def)
qed

text \<open>The octal digits of the number a string without leading zero denotes are the string.\<close>

lemma octal_value_snoc:
  "octal_value acc (xs @ [x]) = 8 * octal_value acc xs + the (octal_digit x)"
  by (simp add: octal_value_def)

lemma octal_value_Cons:
  "octal_value acc (c # cs) = octal_value (8 * acc + the (octal_digit c)) cs"
  by (simp add: octal_value_def)

lemma octal_value_ge: "acc \<le> octal_value acc s"
proof (induction s arbitrary: acc)
  case Nil
  show ?case by (simp add: octal_value_def)
next
  case (Cons c cs)
  have "acc \<le> 8 * acc + the (octal_digit c)" by simp
  also have "\<dots> \<le> octal_value (8 * acc + the (octal_digit c)) cs" by (rule Cons.IH)
  finally show ?case by (simp add: octal_value_Cons)
qed

lemma octal_value_bound:
  "octal_string s \<Longrightarrow> octal_value acc s < (acc + 1) * 8 ^ length s"
proof (induction s arbitrary: acc)
  case Nil
  show ?case by (simp add: octal_value_def)
next
  case (Cons c cs)
  from Cons.prems obtain v where v: "octal_digit c = Some v" and cs: "octal_string cs"
    by (auto simp: octal_string_def)
  from octal_digit_char [OF v] have "v < 8" by simp
  have "octal_value acc (c # cs) = octal_value (8 * acc + v) cs"
    using v by (simp add: octal_value_Cons)
  also have "\<dots> < (8 * acc + v + 1) * 8 ^ length cs" by (rule Cons.IH [OF cs])
  also have "\<dots> \<le> (8 * acc + 8) * 8 ^ length cs"
    using \<open>v < 8\<close> by (intro mult_right_mono) simp_all
  also have "\<dots> = (acc + 1) * 8 ^ length (c # cs)" by (simp add: algebra_simps)
  finally show ?case .
qed

lemma leading_digit_positive:
  assumes "octal_string s" "s \<noteq> []" "hd s \<noteq> CHR ''0''"
  shows "0 < octal_value 0 s"
proof -
  from assms obtain c cs where s: "s = c # cs" by (cases s) auto
  with assms obtain v where v: "octal_digit c = Some v" by (auto simp: octal_string_def)
  have "v \<noteq> 0"
  proof
    assume "v = 0"
    with octal_digit_char [OF v] have "c = char_of (48::nat)" by simp
    moreover have "(of_char (char_of (48::nat)) :: nat) = of_char CHR ''0''" by simp
    then have "char_of (48::nat) = CHR ''0''" by (simp only: of_char_eq_iff)
    ultimately have "c = CHR ''0''" by simp
    with assms(3) s show False by simp
  qed
  then have "0 < 8 * 0 + v" by simp
  also have "\<dots> \<le> octal_value (8 * 0 + v) cs" by (rule octal_value_ge)
  finally show ?thesis using s v by (simp add: octal_value_Cons)
qed

lemma digits_of_octal_value:
  "octal_string s \<Longrightarrow> s \<noteq> [] \<Longrightarrow> hd s \<noteq> CHR ''0'' \<Longrightarrow> digits_of 8 (octal_value 0 s) = s"
proof (induction s rule: rev_induct)
  case Nil
  then show ?case by simp
next
  case (snoc x xs)
  from snoc.prems(1) obtain v where v: "octal_digit x = Some v" and xs: "octal_string xs"
    by (auto simp: octal_string_def)
  from octal_digit_char [OF v] have v8: "v < 8" and x: "x = char_of (48 + v)" by simp_all
  show ?case
  proof (cases "xs = []")
    case True
    then have "octal_value 0 (xs @ [x]) = v" using v by (simp add: octal_value_def)
    then show ?thesis using True v8 x by (simp add: digits_of.simps [of 8 v])
  next
    case False
    then have hd: "hd xs \<noteq> CHR ''0''" using snoc.prems(3) by simp
    have pos: "0 < octal_value 0 xs" by (rule leading_digit_positive [OF xs False hd])
    have ih: "digits_of 8 (octal_value 0 xs) = xs" by (rule snoc.IH [OF xs False hd])
    let ?n = "8 * octal_value 0 xs + v"
    have "\<not> ?n < 8" using pos by simp
    then have "digits_of 8 ?n = digits_of 8 (?n div 8) @ [char_of (48 + ?n mod 8)]"
      by (subst digits_of.simps) simp
    also have "?n div 8 = octal_value 0 xs" using v8 by simp
    also have "?n mod 8 = v" using v8 by simp
    finally show ?thesis using ih x v by (simp add: octal_value_snoc)
  qed
qed

text \<open>
  C9. For every string of one to three octal digits whose first character is not \<open>0\<close>,
  \<open>octal_to_symbolic\<close> returns a string of nine characters, and \<open>symbolic_to_octal\<close> of
  that string returns the original string.
\<close>

theorem permission_round_trip:
  assumes digits: "octal_string s"
      and len: "1 \<le> length s" "length s \<le> 3"
      and lead: "hd s \<noteq> CHR ''0''"
  shows "\<exists>sym. octal_to_symbolic s = Inr sym \<and> length sym = 9 \<and> symbolic_to_octal sym = Inr s"
proof -
  from len have ne: "s \<noteq> []" by auto
  then obtain c cs where s: "s = c # cs" by (cases s) auto
  with lead have strip: "dropWhile (\<lambda>c. c = CHR ''0'') s = s" by simp
  let ?n = "octal_value 0 s"
  have "?n < (0 + 1) * 8 ^ length s" by (rule octal_value_bound [OF digits])
  also have "\<dots> \<le> 8 ^ 3" using len(2) by (simp add: power_increasing del: power_numeral)
  finally have small: "int ?n < 512" by simp
  have fwd: "octal_to_symbolic s = Inr (concat (map (perm_str (int ?n)) [6, 3, 0]))"
    using strip ne int_base8_digits [OF digits ne] by (simp add: octal_to_symbolic_def)
  have "symbolic_to_octal (concat (map (perm_str (int ?n)) [6, 3, 0])) = Inr (digits_of 8 ?n)"
    using render_then_parse [of "int ?n"] small by simp
  also have "digits_of 8 ?n = s" by (rule digits_of_octal_value [OF digits ne lead])
  finally have bwd: "symbolic_to_octal (concat (map (perm_str (int ?n)) [6, 3, 0])) = Inr s" .
  have "length (concat (map (perm_str (int ?n)) [6, 3, 0])) = 9"
    by (simp add: perm_str_def Let_def)
  with fwd bwd show ?thesis by blast
qed

theorem permission_round_trip_witness:
  "octal_string ''755'' \<and> 1 \<le> length ''755'' \<and> length ''755'' \<le> 3 \<and> hd ''755'' \<noteq> CHR ''0''
   \<and> octal_to_symbolic ''755'' = Inr ''rwxr-xr-x''
   \<and> symbolic_to_octal ''rwxr-xr-x'' = Inr ''755''"
proof -
  have h: "octal_string ''755''" "1 \<le> length ''755''" "length ''755'' \<le> 3"
    "hd ''755'' \<noteq> CHR ''0''"
    by (simp_all add: octal_string_def octal_digit_def)
  have o: "octal_to_symbolic ''755'' = Inr ''rwxr-xr-x''"
    by (simp add: octal_to_symbolic_def int_base8_def strip_spaces_def is_space_def
          skip_octal_prefix_def octal_digit_def perm_str_def Let_def)
  from permission_round_trip [OF h] o h show ?thesis by auto
qed

end
